theory Spec2Isabelle
  imports
    Main
    "HOL-Library.Word"
    "HOL-Library.Char_ord"
    "HOL-Library.List_Lexorder"
    "HOL-Library.Product_Lexorder"
begin

section \<open>The Redis shard router of userver\<close>

text \<open>
  A shallow embedding of \<^verbatim>\<open>redis/src/storages/redis/impl/shard.cpp\<close> (class
  \<^verbatim>\<open>Shard\<close>, Sentinel mode) and of \<^verbatim>\<open>cluster_shard.cpp\<close> (class
  \<^verbatim>\<open>ClusterShard\<close>, which follows it in the same source file).
  \<^verbatim>\<open>size_t\<close> is a 64-bit word; vectors are lists; a \<^verbatim>\<open>shared_ptr\<close> that the code
  tests for null is an \<open>option\<close>; undefined behaviour (a null dereference, a division by
  zero) is a value of type \<open>fault\<close>.
\<close>

subsection \<open>Data model\<close>

type_synonym size_t = "64 word"

datatype fault = NullPointerDereference | DivisionByZero

text \<open>\<^verbatim>\<open>Redis::State\<close>, the six connection states the switch of
  \<^verbatim>\<open>Shard::ProcessStateUpdate\<close> names.\<close>

datatype State = kInit | kConnected | kDisconnecting | kDisconnected | kDisconnectError | kInitError

datatype Strategy = kDefault | kEveryDc | kLocalDcConductor | kNearestServerPing

text \<open>Modelled from the spec: the class \<^verbatim>\<open>ServerId\<close> is declared outside the sources at
  hand. The spec says that \<^verbatim>\<open>ServerId::any\<close> is the sentinel signalling "no pin"; every
  other value identifies one server.\<close>

datatype ServerId = AnyServer | Server int

fun IsAny :: "ServerId \<Rightarrow> bool" where
  "IsAny AnyServer = True"
| "IsAny (Server n) = False"

record CommandControl =
  strategy :: Strategy
  force_server_id :: ServerId
  allow_reads_from_master :: bool
  best_dc_count :: size_t

text \<open>
  The live side of an instance: what the router reads from a \<^verbatim>\<open>Redis\<close> object through
  its getters. The class itself is declared outside the sources at hand; a value of this
  record is the snapshot of one object at the time of a call.
\<close>

record Redis =
  GetState :: State
  GetServerId :: ServerId
  GetServerHost :: string
  GetServerPort :: nat
  GetPingLatency :: nat
  GetRunningCommands :: nat
  IsDestroying :: bool
  IsSyncing :: bool

text \<open>Modelled from the spec: \<^verbatim>\<open>ConnectionInfoInt\<close> and its ordering are declared outside
  the sources at hand. The spec lists host, port, auth and the read-only flag, and says the
  type is totally ordered and is the key of reconciliation;
  \<^verbatim>\<open>Shard::UpdateCleanWaitQueue\<close> compares \<^verbatim>\<open>read_only\<close> after a successful
  \<^verbatim>\<open>find\<close>, so the flag is not part of the key. The key is host and port.\<close>

record ConnectionInfoInt =
  host :: string
  port :: nat
  password :: string
  read_only :: bool

definition HostPort :: "ConnectionInfoInt \<Rightarrow> string \<times> nat" where
  "HostPort ci = (host ci, port ci)"

text \<open>\<^verbatim>\<open>Shard::ConnectionStatus\<close>. The instance pointer is never null in a
  \<^verbatim>\<open>Shard\<close>: the only place that builds a \<^verbatim>\<open>ConnectionStatus\<close> is
  \<^verbatim>\<open>ProcessCreation\<close>, with \<^verbatim>\<open>std::make_shared\<close>.\<close>

record ConnectionStatus =
  info :: ConnectionInfoInt
  inst :: Redis

record Command =
  control :: CommandControl
  cmd_read_only :: bool
  instance_idx :: size_t

text \<open>
  The state of a \<^verbatim>\<open>Shard\<close>. \<open>connection_infos\<close> is the \<^verbatim>\<open>std::set\<close> in its
  iteration order; \<open>current_counter\<close> is \<^verbatim>\<open>current_\<close>. \<open>ready_change_callback\<close> is
  \<open>None\<close> for an empty \<^verbatim>\<open>std::function\<close>; a callback is given by whether its call
  throws. Times are readings of the steady clock.
\<close>

record Shard =
  connection_infos :: "ConnectionInfoInt list"
  instances :: "ConnectionStatus list"
  clean_wait :: "ConnectionStatus list"
  destroying :: bool
  current_counter :: size_t
  last_connected_time :: nat
  last_ready_time :: nat
  prev_connected :: bool
  ready_change_callback :: "(bool \<Rightarrow> bool) option"
  cluster_mode :: bool

text \<open>What a call does that is visible from outside: log lines, signals, callbacks, and
  the exclusive lock on \<^verbatim>\<open>mutex_\<close>.\<close>

datatype event =
    WarnServerIdNotFound ServerId
  | WarnFallbackToAny
  | WarnNoServerReady
  | WarnCallbackException
  | LockExclusive
  | Unlock
  | SignalInstanceReady ServerId bool
  | ReadyChangeCallback bool

subsection \<open>Shard: the availability mask\<close>

text \<open>The loop of \<^verbatim>\<open>GetAvailableServers\<close> for a forced server id: the first instance with
  that id is marked and the loop returns; \<open>None\<close> when the loop ends without a match.\<close>

fun mark_forced :: "ServerId \<Rightarrow> ConnectionStatus list \<Rightarrow> nat \<Rightarrow> bool list \<Rightarrow> bool list option" where
  "mark_forced srv [] i result = None"
| "mark_forced srv (e # es) i result =
     (if GetServerId (inst e) = srv then Some (result[i := True])
      else mark_forced srv es (Suc i) result)"

text \<open>The marking loop of \<^verbatim>\<open>GetNearestServersPing\<close> over the pairs (ping, index) in
  ascending order, while \<open>count > 0\<close>.\<close>

fun mark_nearest ::
  "ConnectionStatus list \<Rightarrow> bool \<Rightarrow> bool \<Rightarrow> (nat \<times> nat) list \<Rightarrow> nat \<Rightarrow> bool list \<Rightarrow> bool list"
where
  "mark_nearest insts with_masters with_slaves [] count result = result"
| "mark_nearest insts with_masters with_slaves ((ping, num) # rest) count result =
     (if count > 0 then
        (if (with_slaves \<and> read_only (info (insts ! num))) \<or>
            (with_masters \<and> \<not> read_only (info (insts ! num)))
         then mark_nearest insts with_masters with_slaves rest (count - 1) (result[num := True])
         else mark_nearest insts with_masters with_slaves rest count result)
      else result)"

definition GetNearestServersPing ::
  "ConnectionStatus list \<Rightarrow> CommandControl \<Rightarrow> bool \<Rightarrow> bool \<Rightarrow> bool list"
where
  "GetNearestServersPing insts command_control with_masters with_slaves =
     (let count = (if best_dc_count command_control = 0 then length insts
                   else unat (best_dc_count command_control));
          sorted_by_ping =
            sort (map (\<lambda>i. (GetPingLatency (inst (insts ! i)), i)) [0..<length insts])
      in mark_nearest insts with_masters with_slaves sorted_by_ping count
           (replicate (length insts) False))"

definition GetAvailableServers ::
  "ConnectionStatus list \<Rightarrow> CommandControl \<Rightarrow> bool \<Rightarrow> bool \<Rightarrow> bool list \<times> event list"
where
  "GetAvailableServers insts command_control with_masters with_slaves =
     (if \<not> IsAny (force_server_id command_control) then
        (case mark_forced (force_server_id command_control) insts 0
                (replicate (length insts) False) of
           Some result \<Rightarrow> (result, [])
         | None \<Rightarrow> (replicate (length insts) False,
                     [WarnServerIdNotFound (force_server_id command_control)]))
      else
        (case strategy command_control of
           kEveryDc \<Rightarrow>
             (map (\<lambda>e. if read_only (info e) then with_slaves else with_masters) insts, [])
         | kDefault \<Rightarrow>
             (map (\<lambda>e. if read_only (info e) then with_slaves else with_masters) insts, [])
         | kLocalDcConductor \<Rightarrow>
             (GetNearestServersPing insts command_control with_masters with_slaves, [])
         | kNearestServerPing \<Rightarrow>
             (GetNearestServersPing insts command_control with_masters with_slaves, [])))"

subsection \<open>Shard: selection and dispatch\<close>

text \<open>
  One iteration of the loop of \<^verbatim>\<open>Shard::GetInstance\<close>. \<open>found\<close> is the index last
  written through \<^verbatim>\<open>pinstance_idx\<close>, that is the index of \<^verbatim>\<open>instance\<close>, and \<open>None\<close>
  while \<^verbatim>\<open>instance\<close> is null. The index is \<^verbatim>\<open>(cur + i) % end\<close> with the sum wrapping
  in \<^verbatim>\<open>size_t\<close>; the mask has one entry for each instance (lemma
  \<open>length_GetAvailableServers\<close>), so it is read in range.
\<close>

definition GetInstance_step ::
  "ConnectionStatus list \<Rightarrow> bool list \<Rightarrow> bool \<Rightarrow> size_t \<Rightarrow> bool \<Rightarrow> size_t \<Rightarrow>
   nat option \<Rightarrow> nat \<Rightarrow> nat option"
where
  "GetInstance_step insts available_servers may_fallback_to_any skip_idx ro cur found i =
     (let instance_idx = unat (cur + of_nat i) mod length insts in
      if of_nat instance_idx = skip_idx \<or>
         (\<not> ro \<and> read_only (info (insts ! instance_idx))) \<or>
         (\<not> may_fallback_to_any \<and> \<not> available_servers ! instance_idx)
      then found
      else
        (let cur_inst = inst (insts ! instance_idx) in
         if \<not> IsDestroying cur_inst \<and> GetState cur_inst = kConnected \<and>
            (case found of
               None \<Rightarrow> True
             | Some j \<Rightarrow> IsDestroying (inst (insts ! j)) \<or>
                 GetRunningCommands cur_inst < GetRunningCommands (inst (insts ! j)))
         then Some instance_idx else found))"

text \<open>\<^verbatim>\<open>Shard::GetInstance\<close>, called with the value of \<^verbatim>\<open>++current_\<close>.\<close>

definition GetInstance ::
  "ConnectionStatus list \<Rightarrow> bool list \<Rightarrow> bool \<Rightarrow> size_t \<Rightarrow> bool \<Rightarrow> size_t \<Rightarrow> nat option"
where
  "GetInstance insts available_servers may_fallback_to_any skip_idx ro cur =
     foldl (GetInstance_step insts available_servers may_fallback_to_any skip_idx ro cur)
       None [0..<length insts]"

text \<open>
  The state of the attempt loop of \<^verbatim>\<open>Shard::AsyncCommand\<close>: the counter
  \<^verbatim>\<open>current_\<close>, the local \<^verbatim>\<open>idx\<close>, the field \<^verbatim>\<open>command->instance_idx\<close>, the log
  lines written and the indices of the instances whose \<^verbatim>\<open>AsyncCommand\<close> was called.
\<close>

record attempt_state =
  as_current :: size_t
  as_idx :: nat
  as_instance_idx :: size_t
  as_log :: "event list"
  as_sent :: "nat list"

text \<open>
  The attempt loop. \<open>accept attempt r\<close> is the result of \<^verbatim>\<open>instance->AsyncCommand(command)\<close>
  on the instance \<open>r\<close> at that attempt (the \<^verbatim>\<open>Redis\<close> class is outside the sources at
  hand). \<^verbatim>\<open>command->instance_idx\<close> is read at attempt 0 only, before the loop writes
  it, so \<open>skip_idx\<close> is the field of the command as it was passed in.
\<close>

fun attempts ::
  "(nat \<Rightarrow> Redis \<Rightarrow> bool) \<Rightarrow> ConnectionStatus list \<Rightarrow> Command \<Rightarrow> bool list \<Rightarrow>
   nat list \<Rightarrow> attempt_state \<Rightarrow> bool \<times> attempt_state"
where
  "attempts accept insts command available_servers [] st = (False, st)"
| "attempts accept insts command available_servers (attempt # rest) st =
     (let skip_idx = (if attempt = 0 then instance_idx command else - 1);
          may_fallback_to_any = (attempt \<noteq> 0 \<and> IsAny (force_server_id (control command)));
          cur = as_current st + 1;
          found = GetInstance insts available_servers may_fallback_to_any skip_idx
                    (cmd_read_only command) cur;
          idx = (case found of None \<Rightarrow> as_idx st | Some k \<Rightarrow> k);
          st1 = st\<lparr>as_current := cur, as_idx := idx, as_instance_idx := of_nat idx\<rparr>
      in case found of
           None \<Rightarrow> attempts accept insts command available_servers rest st1
         | Some k \<Rightarrow>
             (let st2 = (if idx \<ge> length available_servers \<or> \<not> available_servers ! idx
                         then st1\<lparr>as_log := as_log st1 @ [WarnFallbackToAny]\<rparr> else st1);
                  st3 = st2\<lparr>as_sent := as_sent st2 @ [k]\<rparr>
              in if accept attempt (inst (insts ! k)) then (True, st3)
                 else attempts accept insts command available_servers rest st3))"

text \<open>The outcome of a \<^verbatim>\<open>submit\<close>: the boolean returned, the shard and the command after
  the call, the log lines, and the indices of the instances the command was handed to.\<close>

record submit_result =
  accepted :: bool
  shard_after :: Shard
  command_after :: Command
  logged :: "event list"
  sent_to :: "nat list"

definition AsyncCommand :: "(nat \<Rightarrow> Redis \<Rightarrow> bool) \<Rightarrow> Shard \<Rightarrow> Command \<Rightarrow> submit_result" where
  "AsyncCommand accept s command =
     (if destroying s then
        \<lparr>accepted = False, shard_after = s, command_after = command, logged = [], sent_to = []\<rparr>
      else
        (let (available_servers, log0) =
               GetAvailableServers (instances s) (control command)
                 (\<not> cmd_read_only command \<or> allow_reads_from_master (control command))
                 (cmd_read_only command);
             max_attempts = length (instances s) + 1;
             (ok, st) = attempts accept (instances s) command available_servers [0..<max_attempts]
                          \<lparr>as_current = current_counter s, as_idx = 0,
                           as_instance_idx = instance_idx command, as_log = log0, as_sent = []\<rparr>
         in \<lparr>accepted = ok,
             shard_after = s\<lparr>current_counter := as_current st\<rparr>,
             command_after = command\<lparr>instance_idx := as_instance_idx st\<rparr>,
             logged = (if ok then as_log st else as_log st @ [WarnNoServerReady]),
             sent_to = as_sent st\<rparr>))"

text \<open>\<^verbatim>\<open>Shard::Clean\<close>.\<close>

definition Clean :: "Shard \<Rightarrow> Shard" where
  "Clean s = s\<lparr>destroying := True, instances := [], clean_wait := []\<rparr>"

text \<open>What \<^verbatim>\<open>Shard::GetInstance\<close> requires of the index it returns.\<close>

definition eligible ::
  "ConnectionStatus list \<Rightarrow> bool list \<Rightarrow> bool \<Rightarrow> size_t \<Rightarrow> bool \<Rightarrow> nat \<Rightarrow> bool" where
  "eligible insts av fb skip ro k \<longleftrightarrow>
     k < length insts \<and> of_nat k \<noteq> skip \<and> (ro \<or> \<not> read_only (info (insts ! k))) \<and>
     (fb \<or> av ! k) \<and> \<not> IsDestroying (inst (insts ! k)) \<and> GetState (inst (insts ! k)) = kConnected"

subsection \<open>Shard: reconciliation\<close>

text \<open>\<^verbatim>\<open>std::set<ConnectionInfoInt>\<close>: \<^verbatim>\<open>find\<close>, \<^verbatim>\<open>erase\<close> and \<^verbatim>\<open>insert\<close> go by the
  key; \<^verbatim>\<open>insert\<close> keeps the element already present and the order of the keys.\<close>

definition set_find :: "ConnectionInfoInt list \<Rightarrow> ConnectionInfoInt \<Rightarrow> ConnectionInfoInt option" where
  "set_find xs x = find (\<lambda>ci. HostPort ci = HostPort x) xs"

definition set_erase :: "ConnectionInfoInt list \<Rightarrow> ConnectionInfoInt \<Rightarrow> ConnectionInfoInt list" where
  "set_erase xs x = filter (\<lambda>ci. HostPort ci \<noteq> HostPort x) xs"

definition set_insert :: "ConnectionInfoInt list \<Rightarrow> ConnectionInfoInt \<Rightarrow> ConnectionInfoInt list" where
  "set_insert xs x = (case set_find xs x of None \<Rightarrow> insort_key HostPort x xs | Some y \<Rightarrow> xs)"

text \<open>\<^verbatim>\<open>Shard::GetConnectionInfosToCreate\<close>.\<close>

definition GetConnectionInfosToCreate :: "Shard \<Rightarrow> ConnectionInfoInt list" where
  "GetConnectionInfosToCreate s =
     (let need_to_create = connection_infos s;
          need_to_create = foldl (\<lambda>need e. set_erase need (info e)) need_to_create (instances s);
          need_to_create = foldl (\<lambda>need e. set_erase need (info e)) need_to_create (clean_wait s)
      in need_to_create)"

text \<open>The loop of \<^verbatim>\<open>Shard::UpdateCleanWaitQueue\<close> over \<^verbatim>\<open>instances_\<close>: the instances
  kept, and \<^verbatim>\<open>instances_changed\<close>.\<close>

fun prune_instances ::
  "ConnectionInfoInt list \<Rightarrow> ConnectionStatus list \<Rightarrow> bool \<Rightarrow> ConnectionStatus list \<times> bool"
where
  "prune_instances infos [] instances_changed = ([], instances_changed)"
| "prune_instances infos (e # es) instances_changed =
     (case set_find infos (info e) of
        None \<Rightarrow> prune_instances infos es True
      | Some conn_info \<Rightarrow>
          if read_only conn_info \<noteq> read_only (info e) then
            (let (kept, changed) = prune_instances infos es True
             in (e\<lparr>info := (info e)\<lparr>read_only := read_only conn_info\<rparr>\<rparr> # kept, changed))
          else
            (let (kept, changed) = prune_instances infos es instances_changed
             in (e # kept, changed)))"

definition UpdateCleanWaitQueue :: "Shard \<Rightarrow> ConnectionStatus list \<Rightarrow> bool \<times> Shard" where
  "UpdateCleanWaitQueue s add_clean_wait =
     (let (kept, instances_changed) = prune_instances (connection_infos s) (instances s) False
      in (instances_changed,
          s\<lparr>clean_wait := clean_wait s @ add_clean_wait, instances := kept\<rparr>))"

text \<open>
  \<^verbatim>\<open>Shard::ProcessCreation\<close>. \<open>new_redis b id\<close> is the instance made by
  \<^verbatim>\<open>std::make_shared<Redis>(pool, b)\<close> after its signals are connected and
  \<^verbatim>\<open>Connect(id)\<close> is called, as the shard sees it afterwards.
\<close>

definition ProcessCreation ::
  "(bool \<Rightarrow> ConnectionInfoInt \<Rightarrow> Redis) \<Rightarrow> Shard \<Rightarrow> bool \<times> Shard"
where
  "ProcessCreation new_redis s =
     (let need_to_create = GetConnectionInfosToCreate s;
          add_clean_wait =
            map (\<lambda>id. \<lparr>info = id, inst = new_redis (cluster_mode s \<and> read_only id) id\<rparr>)
              need_to_create
      in UpdateCleanWaitQueue s add_clean_wait)"

text \<open>The first loop of \<^verbatim>\<open>Shard::ProcessStateUpdate\<close>: an instance that is not connected
  moves to the end of \<^verbatim>\<open>clean_wait_\<close>. The result is the instances kept, the queue and
  \<^verbatim>\<open>instances_changed\<close>.\<close>

fun demote_instances ::
  "ConnectionStatus list \<Rightarrow> ConnectionStatus list \<Rightarrow> bool \<Rightarrow>
   ConnectionStatus list \<times> ConnectionStatus list \<times> bool"
where
  "demote_instances [] waiting instances_changed = ([], waiting, instances_changed)"
| "demote_instances (e # es) waiting instances_changed =
     (if GetState (inst e) \<noteq> kConnected then demote_instances es (waiting @ [e]) True
      else (let (kept, waiting', changed) = demote_instances es waiting instances_changed
            in (e # kept, waiting', changed)))"

text \<open>What the second loop of \<^verbatim>\<open>Shard::ProcessStateUpdate\<close> changes besides the queue.\<close>

record promote_state =
  ps_instances :: "ConnectionStatus list"
  ps_erase_clean_wait :: "ConnectionStatus list"
  ps_instances_changed :: bool
  ps_last_connected_time :: nat
  ps_events :: "event list"

text \<open>The second loop, over \<^verbatim>\<open>clean_wait_\<close>: a connected entry moves to the end of
  \<^verbatim>\<open>instances_\<close> and \<^verbatim>\<open>signal_instance_ready_\<close> is emitted at once; an entry in a terminal
  state moves to \<^verbatim>\<open>erase_clean_wait\<close>; an entry in \<^verbatim>\<open>kInit\<close> stays. The result is the
  queue kept and the state. \<open>now\<close> is the reading of the steady clock.\<close>

fun promote_clean_wait ::
  "nat \<Rightarrow> ConnectionStatus list \<Rightarrow> promote_state \<Rightarrow> ConnectionStatus list \<times> promote_state"
where
  "promote_clean_wait now [] st = ([], st)"
| "promote_clean_wait now (e # es) st =
     (case GetState (inst e) of
        kConnected \<Rightarrow>
          promote_clean_wait now es
            (st\<lparr>ps_instances := ps_instances st @ [e],
                ps_instances_changed := True,
                ps_last_connected_time := now,
                ps_events := ps_events st @
                  [SignalInstanceReady (GetServerId (inst e)) (read_only (info e))]\<rparr>)
      | kInit \<Rightarrow>
          (let (kept, st') = promote_clean_wait now es st in (e # kept, st'))
      | kDisconnecting \<Rightarrow>
          promote_clean_wait now es
            (st\<lparr>ps_erase_clean_wait := ps_erase_clean_wait st @ [e]\<rparr>)
      | kDisconnected \<Rightarrow>
          promote_clean_wait now es
            (st\<lparr>ps_erase_clean_wait := ps_erase_clean_wait st @ [e]\<rparr>)
      | kDisconnectError \<Rightarrow>
          promote_clean_wait now es
            (st\<lparr>ps_erase_clean_wait := ps_erase_clean_wait st @ [e]\<rparr>)
      | kInitError \<Rightarrow>
          promote_clean_wait now es
            (st\<lparr>ps_erase_clean_wait := ps_erase_clean_wait st @ [e]\<rparr>))"

text \<open>
  \<^verbatim>\<open>Shard::ProcessStateUpdate\<close>: the boolean returned, the shard afterwards and the events
  in the order of the program. \<^verbatim>\<open>LockExclusive\<close> and \<^verbatim>\<open>Unlock\<close> delimit the scope of
  the \<^verbatim>\<open>std::unique_lock\<close>. Every reading of the steady clock within one call is
  \<open>now\<close>.
\<close>

definition ProcessStateUpdate :: "nat \<Rightarrow> Shard \<Rightarrow> bool \<times> Shard \<times> event list" where
  "ProcessStateUpdate now s =
     (let (kept, waiting, changed) = demote_instances (instances s) (clean_wait s) False;
          (waiting', st) = promote_clean_wait now waiting
             \<lparr>ps_instances = kept, ps_erase_clean_wait = [], ps_instances_changed = changed,
              ps_last_connected_time = last_connected_time s, ps_events = [LockExclusive]\<rparr>;
          new_connected = (ps_instances st \<noteq> []);
          last_ready = (if ps_erase_clean_wait st \<noteq> [] \<and>
                           ps_last_connected_time st > last_ready_time s
                        then now else last_ready_time s);
          events1 = ps_events st @ [Unlock];
          events2 =
            (if prev_connected s \<noteq> new_connected then
               (case ready_change_callback s of
                  None \<Rightarrow> events1
                | Some callback \<Rightarrow>
                    events1 @ [ReadyChangeCallback new_connected] @
                    (if callback new_connected then [WarnCallbackException] else []))
             else events1)
      in (ps_instances_changed st,
          s\<lparr>instances := ps_instances st, clean_wait := waiting',
            last_connected_time := ps_last_connected_time st,
            last_ready_time := last_ready, prev_connected := new_connected\<rparr>,
          events2))"

text \<open>\<^verbatim>\<open>Shard::SetConnectionInfo\<close>. \<^verbatim>\<open>operator==\<close> of \<^verbatim>\<open>ConnectionInfoInt\<close> is declared
  outside the sources at hand and is the parameter \<open>info_eq\<close>.\<close>

definition SetConnectionInfo ::
  "(ConnectionInfoInt \<Rightarrow> ConnectionInfoInt \<Rightarrow> bool) \<Rightarrow> ConnectionInfoInt list \<Rightarrow> Shard \<Rightarrow>
   bool \<times> Shard"
where
  "SetConnectionInfo info_eq info_array s =
     (let new_info = foldl set_insert [] info_array in
      if length new_info = length (connection_infos s) \<and>
         list_all2 info_eq new_info (connection_infos s)
      then (False, s)
      else (True, s\<lparr>connection_infos := new_info\<rparr>))"

text \<open>The three kinds of entries \<^verbatim>\<open>Shard::ProcessStateUpdate\<close> tells apart, the signal it
  emits for an entry, and what it does with the readiness callback when the shard has
  just become ready (\<open>new_connected\<close>) or not.\<close>

definition connected :: "ConnectionStatus \<Rightarrow> bool" where
  "connected e \<longleftrightarrow> GetState (inst e) = kConnected"

definition initial :: "ConnectionStatus \<Rightarrow> bool" where
  "initial e \<longleftrightarrow> GetState (inst e) = kInit"

definition terminal :: "ConnectionStatus \<Rightarrow> bool" where
  "terminal e \<longleftrightarrow> GetState (inst e) \<noteq> kConnected \<and> GetState (inst e) \<noteq> kInit"

definition signal_ready :: "ConnectionStatus \<Rightarrow> event" where
  "signal_ready e = SignalInstanceReady (GetServerId (inst e)) (read_only (info e))"

definition ready_change_events :: "Shard \<Rightarrow> bool \<Rightarrow> event list" where
  "ready_change_events s new_connected =
     (if prev_connected s = new_connected then []
      else case ready_change_callback s of
             None \<Rightarrow> []
           | Some callback \<Rightarrow>
               ReadyChangeCallback new_connected #
               (if callback new_connected then [WarnCallbackException] else []))"

text \<open>An entry is in step with the desired set when the set has an info with its host
  and port, and that info has its read-only flag.\<close>

definition in_sync :: "ConnectionInfoInt list \<Rightarrow> ConnectionStatus \<Rightarrow> bool" where
  "in_sync infos e \<longleftrightarrow>
     (case set_find infos (info e) of None \<Rightarrow> False
      | Some ci \<Rightarrow> read_only ci = read_only (info e))"

text \<open>A shard on which \<^verbatim>\<open>ProcessStateUpdate\<close> has nothing to do.\<close>

definition settled :: "Shard \<Rightarrow> bool" where
  "settled s \<longleftrightarrow>
     list_all connected (instances s) \<and> list_all initial (clean_wait s) \<and>
     prev_connected s = (instances s \<noteq> [])"

text \<open>The operations on a shard in the order in which its callers run them. An
  \<open>InstancesChange\<close> is what happens to the instances between two calls: each connection
  status is replaced by another one for the same info.\<close>

datatype operation =
    OpClean
  | OpProcessCreation "bool \<Rightarrow> ConnectionInfoInt \<Rightarrow> Redis"
  | OpProcessStateUpdate nat
  | OpSetConnectionInfo "ConnectionInfoInt \<Rightarrow> ConnectionInfoInt \<Rightarrow> bool" "ConnectionInfoInt list"
  | OpAsyncCommand "nat \<Rightarrow> Redis \<Rightarrow> bool" Command
  | InstancesChange "Redis \<Rightarrow> Redis"

fun run_operation :: "Shard \<Rightarrow> operation \<Rightarrow> Shard" where
  "run_operation s OpClean = Clean s"
| "run_operation s (OpProcessCreation new_redis) = snd (ProcessCreation new_redis s)"
| "run_operation s (OpProcessStateUpdate now) = fst (snd (ProcessStateUpdate now s))"
| "run_operation s (OpSetConnectionInfo info_eq info_array) =
     snd (SetConnectionInfo info_eq info_array s)"
| "run_operation s (OpAsyncCommand accept command) = shard_after (AsyncCommand accept s command)"
| "run_operation s (InstancesChange f) =
     s\<lparr>instances := map (\<lambda>e. e\<lparr>inst := f (inst e)\<rparr>) (instances s),
       clean_wait := map (\<lambda>e. e\<lparr>inst := f (inst e)\<rparr>) (clean_wait s)\<rparr>"

subsection \<open>ClusterShard: the start index\<close>

text \<open>\<^verbatim>\<open>a % b\<close> on \<^verbatim>\<open>size_t\<close>: undefined for \<open>b = 0\<close>.\<close>

definition size_mod :: "size_t \<Rightarrow> size_t \<Rightarrow> fault + size_t" where
  "size_mod a b = (if b = 0 then Inl DivisionByZero else Inr (a mod b))"

text \<open>
  \<^verbatim>\<open>GetStartIndex\<close> (cluster_shard.cpp). The constant
  \<^verbatim>\<open>SentinelImplBase::kDefaultPrevInstanceIdx\<close> is declared outside the sources at hand and
  is the first parameter. All arithmetic is that of \<^verbatim>\<open>size_t\<close>: \<open>+\<close> and \<open>-\<close> wrap.
\<close>

definition GetStartIndex ::
  "size_t \<Rightarrow> CommandControl \<Rightarrow> size_t \<Rightarrow> bool \<Rightarrow> size_t \<Rightarrow> size_t \<Rightarrow> size_t \<Rightarrow> fault + size_t"
where
  "GetStartIndex kDefaultPrevInstanceIdx command_control attempt is_nearest_ping_server
      prev_instance_idx current servers_count =
    (let allow_reads = allow_reads_from_master command_control;
         best_dc = (if best_dc_count command_control = 0 then - 1
                    else best_dc_count command_control);
         first_attempt = (attempt = 0);
         first_try = (prev_instance_idx = kDefaultPrevInstanceIdx);
         servers_count' = (if first_try \<and> first_attempt \<and> \<not> allow_reads
                           then max (servers_count - 1) 1 else servers_count)
     in if is_nearest_ping_server then
          (if first_try then
             (case size_mod current (min best_dc servers_count') of
                Inl e \<Rightarrow> Inl e
              | Inr r \<Rightarrow> size_mod (attempt + r) servers_count')
           else size_mod (attempt + (prev_instance_idx + 1)) servers_count')
        else if first_try then size_mod (current + attempt) servers_count'
        else size_mod (prev_instance_idx + 1 + attempt) servers_count')"

text \<open>The spec's words: the effective count is the candidate count reduced by one and
  clamped at one exactly on the first attempt of the first try with reads from the master
  disabled; the window of a nearest-ping command is unbounded for \<open>best_dc_count = 0\<close>.\<close>

definition effective_count :: "bool \<Rightarrow> bool \<Rightarrow> bool \<Rightarrow> size_t \<Rightarrow> size_t" where
  "effective_count first_try first_attempt allow_reads count =
     (if first_try \<and> first_attempt \<and> \<not> allow_reads then max (count - 1) 1 else count)"

definition nearest_window :: "size_t \<Rightarrow> size_t" where
  "nearest_window best = (if best = 0 then - 1 else best)"

text \<open>The start index of the spec on natural numbers, where no sum wraps.\<close>

definition start_index_nat :: "bool \<Rightarrow> bool \<Rightarrow> nat \<Rightarrow> nat \<Rightarrow> nat \<Rightarrow> nat \<Rightarrow> nat \<Rightarrow> nat" where
  "start_index_nat nearest first_try attempt prev cur window eff =
     (if first_try then
        (if nearest then (attempt + cur mod min window eff) mod eff
         else (cur + attempt) mod eff)
      else (prev + 1 + attempt) mod eff)"

subsection \<open>ClusterShard\<close>

text \<open>
  A \<^verbatim>\<open>RedisConnectionPtr\<close> is a shared pointer to a \<^verbatim>\<open>RedisConnectionHolder\<close>, which
  the code tests for null; the holder (declared outside the sources at hand) is what its
  two accessors return: \<^verbatim>\<open>Get()\<close>, a \<^verbatim>\<open>Redis\<close> pointer that may be null, and
  \<^verbatim>\<open>GetState()\<close>.
\<close>

record RedisConnectionHolder =
  Get :: "Redis option"
  holder_GetState :: State

type_synonym RedisConnectionPtr = "RedisConnectionHolder option"

record ClusterShard =
  replicas :: "RedisConnectionPtr list"
  master :: RedisConnectionPtr
  cluster_current :: size_t
  shard :: nat

datatype WaitConnectedMode = kNoWait | kMaster | kMasterOrSlave | kSlave | kMasterAndSlave

definition IsNearestServerPing :: "CommandControl \<Rightarrow> bool" where
  "IsNearestServerPing control' =
     (case strategy control' of
        kEveryDc \<Rightarrow> False
      | kDefault \<Rightarrow> False
      | kLocalDcConductor \<Rightarrow> True
      | kNearestServerPing \<Rightarrow> True)"

definition IsMasterReady :: "ClusterShard \<Rightarrow> bool" where
  "IsMasterReady cs =
     (case master cs of None \<Rightarrow> False | Some h \<Rightarrow> holder_GetState h = kConnected)"

definition IsReplicaReady :: "ClusterShard \<Rightarrow> bool" where
  "IsReplicaReady cs =
     list_ex (\<lambda>replica. case replica of None \<Rightarrow> False
                         | Some h \<Rightarrow> holder_GetState h = kConnected) (replicas cs)"

definition IsReady :: "ClusterShard \<Rightarrow> WaitConnectedMode \<Rightarrow> bool" where
  "IsReady cs mode =
     (case mode of
        kNoWait \<Rightarrow> True
      | kMaster \<Rightarrow> IsMasterReady cs
      | kMasterOrSlave \<Rightarrow> IsMasterReady cs \<or> IsReplicaReady cs
      | kSlave \<Rightarrow> IsReplicaReady cs
      | kMasterAndSlave \<Rightarrow> IsMasterReady cs \<and> IsReplicaReady cs)"

text \<open>
  \<^verbatim>\<open>ClusterShard::GetStatistics\<close>. The statistics of one instance are opaque here: the
  payload is the instance itself, the key \<^verbatim>\<open>host:port\<close> is the pair of host and port,
  and \<^verbatim>\<open>shard_total\<close> is the list of the payloads added to it. \<^verbatim>\<open>emplace\<close> keeps the
  entry of a key that is already present. The metrics settings only shape the payload and
  are left out.
\<close>

record ShardStatistics =
  stat_instances :: "(string \<times> nat) \<rightharpoonup> Redis"
  shard_total :: "Redis list"
  is_ready :: bool

definition add_to_stats :: "Redis option \<Rightarrow> ShardStatistics \<Rightarrow> ShardStatistics" where
  "add_to_stats instance_ptr stats =
     (case instance_ptr of
        None \<Rightarrow> stats
      | Some r \<Rightarrow>
          stats\<lparr>shard_total := shard_total stats @ [r],
                stat_instances :=
                  (if (GetServerHost r, GetServerPort r) \<in> dom (stat_instances stats)
                   then stat_instances stats
                   else (stat_instances stats)((GetServerHost r, GetServerPort r) \<mapsto> r))\<rparr>)"

definition Cluster_GetStatistics :: "ClusterShard \<Rightarrow> bool \<Rightarrow> ShardStatistics" where
  "Cluster_GetStatistics cs master_side =
     (let stats0 = \<lparr>stat_instances = Map.empty, shard_total = [], is_ready = False\<rparr>;
          stats1 =
            (if master_side then
               (case master cs of None \<Rightarrow> stats0 | Some h \<Rightarrow> add_to_stats (Get h) stats0)
             else
               foldl (\<lambda>stats replica. case replica of None \<Rightarrow> stats
                                        | Some h \<Rightarrow> add_to_stats (Get h) stats)
                 stats0 (replicas cs))
      in stats1\<lparr>is_ready := IsReady cs kMasterAndSlave\<rparr>)"

text \<open>The scan of the replicas in \<^verbatim>\<open>ClusterShard::GetAvailableServer\<close>. Neither the
  holder nor the instance is tested for null before it is dereferenced.\<close>

fun find_replica :: "ServerId \<Rightarrow> RedisConnectionPtr list \<Rightarrow> fault + Redis option" where
  "find_replica srv [] = Inr None"
| "find_replica srv (replica_connection # rest) =
     (case replica_connection of
        None \<Rightarrow> Inl NullPointerDereference
      | Some h \<Rightarrow>
          (case Get h of
             None \<Rightarrow> Inl NullPointerDereference
           | Some replica \<Rightarrow>
               if GetServerId replica = srv then Inr (Some replica)
               else find_replica srv rest))"

definition GetAvailableServer ::
  "ClusterShard \<Rightarrow> CommandControl \<Rightarrow> bool \<Rightarrow> fault + (Redis option \<times> event list)"
where
  "GetAvailableServer cs command_control ro =
     (if \<not> ro then
        (case master cs of
           None \<Rightarrow> Inl NullPointerDereference
         | Some h \<Rightarrow> Inr (Get h, []))
      else if IsAny (force_server_id command_control) then Inr (None, [])
      else
        (case master cs of
           None \<Rightarrow> Inl NullPointerDereference
         | Some h \<Rightarrow>
             (case Get h of
                None \<Rightarrow> Inl NullPointerDereference
              | Some master_inst \<Rightarrow>
                  if GetServerId master_inst = force_server_id command_control
                  then Inr (Some master_inst, [])
                  else
                    (case find_replica (force_server_id command_control) (replicas cs) of
                       Inl f \<Rightarrow> Inl f
                     | Inr (Some replica) \<Rightarrow> Inr (Some replica, [])
                     | Inr None \<Rightarrow>
                         Inr (None, [WarnServerIdNotFound (force_server_id command_control)])))))"

definition MakeReadonlyWithMasters :: "ClusterShard \<Rightarrow> RedisConnectionPtr list" where
  "MakeReadonlyWithMasters cs = replicas cs @ [master cs]"

text \<open>
  \<^verbatim>\<open>ClusterShard::GetNearestServersPing\<close>. \<^verbatim>\<open>std::partial_sort\<close> with the comparator on
  the ping latency is the parameter \<open>partial_sort\<close>: its first argument is the number of
  leading positions to fill, and its result is a fault when the comparator dereferences a
  null pointer.
\<close>

definition Cluster_GetNearestServersPing ::
  "(nat \<Rightarrow> RedisConnectionPtr list \<Rightarrow> fault + RedisConnectionPtr list) \<Rightarrow>
   CommandControl \<Rightarrow> RedisConnectionPtr list \<Rightarrow> fault + RedisConnectionPtr list"
where
  "Cluster_GetNearestServersPing partial_sort command_control insts =
     (let num_instances = min (unat (best_dc_count command_control)) (length insts) in
      if num_instances = 0 \<and> num_instances = length insts then Inr insts
      else partial_sort num_instances insts)"

definition Cluster_GetAvailableServers ::
  "(nat \<Rightarrow> RedisConnectionPtr list \<Rightarrow> fault + RedisConnectionPtr list) \<Rightarrow>
   ClusterShard \<Rightarrow> CommandControl \<Rightarrow> fault + RedisConnectionPtr list"
where
  "Cluster_GetAvailableServers partial_sort cs command_control =
     (if \<not> IsNearestServerPing command_control then Inr (MakeReadonlyWithMasters cs)
      else if allow_reads_from_master command_control then
        Cluster_GetNearestServersPing partial_sort command_control (MakeReadonlyWithMasters cs)
      else
        (case Cluster_GetNearestServersPing partial_sort command_control (replicas cs) of
           Inl f \<Rightarrow> Inl f
         | Inr ret \<Rightarrow> Inr (ret @ [master cs])))"

text \<open>One iteration of the loop of \<^verbatim>\<open>ClusterShard::GetInstance\<close>; \<open>ret\<close> is the instance
  chosen so far with the index written through \<^verbatim>\<open>pinstance_idx\<close>.\<close>

definition Cluster_GetInstance_step ::
  "RedisConnectionPtr list \<Rightarrow> size_t \<Rightarrow> nat \<Rightarrow> fault + (Redis \<times> nat) option \<Rightarrow> nat \<Rightarrow>
   fault + (Redis \<times> nat) option"
where
  "Cluster_GetInstance_step insts start_idx end' acc i =
     (case acc of
        Inl f \<Rightarrow> Inl f
      | Inr ret \<Rightarrow>
          (let idx = unat (start_idx + of_nat i) mod end' in
           case insts ! idx of
             None \<Rightarrow> Inl NullPointerDereference
           | Some h \<Rightarrow>
               (case Get h of
                  None \<Rightarrow> Inr ret
                | Some cur_inst \<Rightarrow>
                    if \<not> IsDestroying cur_inst \<and> GetState cur_inst = kConnected \<and>
                       \<not> IsSyncing cur_inst \<and>
                       (case ret of
                          None \<Rightarrow> True
                        | Some (r, j) \<Rightarrow> IsDestroying r \<or>
                            GetRunningCommands cur_inst < GetRunningCommands r)
                    then Inr (Some (cur_inst, idx)) else Inr ret)))"

definition Cluster_GetInstance ::
  "RedisConnectionPtr list \<Rightarrow> size_t \<Rightarrow> nat \<Rightarrow> bool \<Rightarrow> size_t \<Rightarrow> fault + (Redis \<times> nat) option"
where
  "Cluster_GetInstance insts start_idx attempt is_nearest_ping_server best_dc =
     (let end' = (if is_nearest_ping_server \<and> attempt = 0 \<and> best_dc \<noteq> 0
                  then min (length insts) (unat best_dc) else length insts)
      in foldl (Cluster_GetInstance_step insts start_idx end') (Inr None) [0..<end'])"

record cluster_attempt_state =
  cl_instance_idx :: size_t
  cl_sent :: "Redis list"

text \<open>The attempt loop of \<^verbatim>\<open>ClusterShard::AsyncCommand\<close> for a read-only command with no
  forced server. \<^verbatim>\<open>command->instance_idx\<close> is read again at every attempt.\<close>

fun Cluster_attempts ::
  "size_t \<Rightarrow> (nat \<Rightarrow> Redis \<Rightarrow> bool) \<Rightarrow> CommandControl \<Rightarrow> RedisConnectionPtr list \<Rightarrow> size_t \<Rightarrow>
   nat list \<Rightarrow> cluster_attempt_state \<Rightarrow> fault + (bool \<times> cluster_attempt_state)"
where
  "Cluster_attempts kDefaultPrevInstanceIdx accept command_control available_servers cur [] st =
     Inr (False, st)"
| "Cluster_attempts kDefaultPrevInstanceIdx accept command_control available_servers cur
     (attempt # rest) st =
     (case GetStartIndex kDefaultPrevInstanceIdx command_control (of_nat attempt)
             (IsNearestServerPing command_control) (cl_instance_idx st) cur
             (of_nat (length available_servers)) of
        Inl f \<Rightarrow> Inl f
      | Inr start_idx \<Rightarrow>
          (case Cluster_GetInstance available_servers start_idx attempt
                  (IsNearestServerPing command_control) (best_dc_count command_control) of
             Inl f \<Rightarrow> Inl f
           | Inr None \<Rightarrow>
               Cluster_attempts kDefaultPrevInstanceIdx accept command_control
                 available_servers cur rest st
           | Inr (Some (r, idx)) \<Rightarrow>
               (let st' = \<lparr>cl_instance_idx = of_nat idx, cl_sent = cl_sent st @ [r]\<rparr> in
                if accept attempt r then Inr (True, st')
                else Cluster_attempts kDefaultPrevInstanceIdx accept command_control
                       available_servers cur rest st')))"

text \<open>The outcome of a submit to a \<^verbatim>\<open>ClusterShard\<close>; \<open>cl_sent_to\<close> lists the instances
  whose \<^verbatim>\<open>AsyncCommand\<close> was called, in order.\<close>

record cluster_result =
  cl_accepted :: bool
  cl_shard_after :: ClusterShard
  cl_command_after :: Command
  cl_logged :: "event list"
  cl_sent_to :: "Redis list"

definition Cluster_AsyncCommand ::
  "size_t \<Rightarrow> (nat \<Rightarrow> RedisConnectionPtr list \<Rightarrow> fault + RedisConnectionPtr list) \<Rightarrow>
   (nat \<Rightarrow> Redis \<Rightarrow> bool) \<Rightarrow> ClusterShard \<Rightarrow> Command \<Rightarrow> fault + cluster_result"
where
  "Cluster_AsyncCommand kDefaultPrevInstanceIdx partial_sort accept cs command =
     (if \<not> cmd_read_only command \<or> \<not> IsAny (force_server_id (control command)) then
        (case GetAvailableServer cs (control command) (cmd_read_only command) of
           Inl f \<Rightarrow> Inl f
         | Inr (Some r, log0) \<Rightarrow>
             Inr \<lparr>cl_accepted = accept 0 r, cl_shard_after = cs, cl_command_after = command,
                  cl_logged = log0, cl_sent_to = [r]\<rparr>
         | Inr (None, log0) \<Rightarrow>
             Inr \<lparr>cl_accepted = False, cl_shard_after = cs, cl_command_after = command,
                  cl_logged = log0, cl_sent_to = []\<rparr>)
      else
        (let cur = cluster_current cs;
             cs' = cs\<lparr>cluster_current := cur + 1\<rparr>
         in case Cluster_GetAvailableServers partial_sort cs (control command) of
              Inl f \<Rightarrow> Inl f
            | Inr available_servers \<Rightarrow>
                (case Cluster_attempts kDefaultPrevInstanceIdx accept (control command)
                        available_servers cur [0..<length (replicas cs) + 1 + 1]
                        \<lparr>cl_instance_idx = instance_idx command, cl_sent = []\<rparr> of
                   Inl f \<Rightarrow> Inl f
                 | Inr (ok, st) \<Rightarrow>
                     Inr \<lparr>cl_accepted = ok, cl_shard_after = cs',
                          cl_command_after = command\<lparr>instance_idx := cl_instance_idx st\<rparr>,
                          cl_logged = (if ok then [] else [WarnNoServerReady]),
                          cl_sent_to = cl_sent st\<rparr>)))"

subsection \<open>Example shards and commands\<close>

text \<open>
  Scenario 1 of the spec with the master destroying: a master \<open>m\<close> and two replicas, all
  connected, and a writable command with the default strategy and no previous instance.
\<close>

definition redis_m :: Redis where
  "redis_m = \<lparr>GetState = kConnected, GetServerId = Server 1, GetServerHost = ''m'',
     GetServerPort = 6379, GetPingLatency = 1, GetRunningCommands = 0,
     IsDestroying = False, IsSyncing = False\<rparr>"

definition redis_r1 :: Redis where
  "redis_r1 = redis_m\<lparr>GetServerId := Server 2, GetServerHost := ''r1''\<rparr>"

definition redis_r2 :: Redis where
  "redis_r2 = redis_m\<lparr>GetServerId := Server 3, GetServerHost := ''r2''\<rparr>"

definition info_of :: "Redis \<Rightarrow> bool \<Rightarrow> ConnectionInfoInt" where
  "info_of r ro = \<lparr>host = GetServerHost r, port = GetServerPort r, password = [], read_only = ro\<rparr>"

definition entry_of :: "Redis \<Rightarrow> bool \<Rightarrow> ConnectionStatus" where
  "entry_of r ro = \<lparr>info = info_of r ro, inst = r\<rparr>"

definition shard_of :: "ConnectionStatus list \<Rightarrow> ConnectionStatus list \<Rightarrow> Shard" where
  "shard_of live waiting =
     \<lparr>connection_infos = map info (live @ waiting), instances = live, clean_wait = waiting,
      destroying = False, current_counter = 0, last_connected_time = 0, last_ready_time = 0,
      prev_connected = (live \<noteq> []), ready_change_callback = Some (\<lambda>b. False),
      cluster_mode = False\<rparr>"

definition command_of :: "bool \<Rightarrow> ServerId \<Rightarrow> size_t \<Rightarrow> Command" where
  "command_of ro srv idx =
     \<lparr>control = \<lparr>strategy = kDefault, force_server_id = srv,
                  allow_reads_from_master = False, best_dc_count = 0\<rparr>,
      cmd_read_only = ro, instance_idx = idx\<rparr>"

text \<open>A cluster shard with a master of id 1 and one replica of id 2, both connected.\<close>

definition holder_of :: "Redis \<Rightarrow> RedisConnectionPtr" where
  "holder_of r = Some \<lparr>Get = Some r, holder_GetState = GetState r\<rparr>"

definition cluster_of :: "Redis \<Rightarrow> Redis list \<Rightarrow> ClusterShard" where
  "cluster_of m rs =
     \<lparr>replicas = map holder_of rs, master = holder_of m, cluster_current = 0, shard = 0\<rparr>"

text \<open>Instances that accept every command; a \<^verbatim>\<open>partial_sort\<close> that finds the range in
  order already; a new instance that is still connecting.\<close>

definition accept_all :: "nat \<Rightarrow> Redis \<Rightarrow> bool" where
  "accept_all attempt r = True"

definition keep_order :: "nat \<Rightarrow> RedisConnectionPtr list \<Rightarrow> fault + RedisConnectionPtr list" where
  "keep_order n xs = Inr xs"

definition connecting :: "bool \<Rightarrow> ConnectionInfoInt \<Rightarrow> Redis" where
  "connecting b ci =
     \<lparr>GetState = kInit, GetServerId = Server (int (port ci)), GetServerHost = host ci,
      GetServerPort = port ci, GetPingLatency = 0, GetRunningCommands = 0,
      IsDestroying = False, IsSyncing = b\<rparr>"

text \<open>Examples for the reconciliation: a shard that holds one entry for the master, whose
  handle has gone to \<^verbatim>\<open>kDisconnecting\<close> or is connected, and the desired info of a
  replica.\<close>

definition entry_a :: "State \<Rightarrow> ConnectionStatus" where
  "entry_a st = entry_of (redis_m\<lparr>GetState := st\<rparr>) False"

definition info_b :: ConnectionInfoInt where
  "info_b = \<lparr>host = ''b'', port = 6380, password = [], read_only = True\<rparr>"

definition info_eq_all :: "ConnectionInfoInt \<Rightarrow> ConnectionInfoInt \<Rightarrow> bool" where
  "info_eq_all x y = (x = y)"

text \<open>Every handle reaches \<^verbatim>\<open>kConnected\<close>.\<close>

definition connect_all :: "Redis \<Rightarrow> Redis" where
  "connect_all r = r\<lparr>GetState := kConnected\<rparr>"

section \<open>Theorems\<close>

subsection \<open>Evaluating the examples\<close>

lemmas example_defs = shard_of_def entry_of_def info_of_def command_of_def redis_m_def
  redis_r1_def redis_r2_def accept_all_def keep_order_def cluster_of_def holder_of_def

lemma upt_2: "[0..<2] = [0, 1]"
  by (simp add: upt_rec)

lemma upt_3: "[0..<3] = [0, 1, 2]"
  by (simp add: upt_rec)

subsection \<open>The start index\<close>

lemma size_mod_nonzero: "b \<noteq> 0 \<Longrightarrow> size_mod a b = Inr (a mod b)"
  by (simp add: size_mod_def)

lemma effective_count_nonzero:
  "count \<noteq> 0 \<Longrightarrow> effective_count ft fa al count \<noteq> 0"
  by (auto simp add: effective_count_def max_def)

lemma nearest_window_nonzero: "nearest_window b \<noteq> 0"
  by (simp add: nearest_window_def)

lemma unat_effective_count:
  assumes "count \<noteq> 0"
  shows "unat (effective_count ft fa al count) =
         (if ft \<and> fa \<and> \<not> al then max (unat count - 1) 1 else unat count)"
proof -
  have one: "1 \<le> count" using assms by (simp add: word_le_nat_alt unat_gt_0 Suc_leI)
  have "unat (count - 1) = unat count - 1"
    using one by (simp add: unat_sub)
  moreover have "unat (max (count - 1) 1) = max (unat (count - 1)) 1"
    by (simp add: max_def word_le_nat_alt)
  ultimately show ?thesis by (simp add: effective_count_def)
qed

lemma GetStartIndex_unfold:
  "GetStartIndex K cc attempt nearest prev current count =
     (let eff = effective_count (prev = K) (attempt = 0) (allow_reads_from_master cc) count;
          window = nearest_window (best_dc_count cc)
      in if nearest then
           (if prev = K then
              (case size_mod current (min window eff) of
                 Inl e \<Rightarrow> Inl e
               | Inr r \<Rightarrow> size_mod (attempt + r) eff)
            else size_mod (attempt + (prev + 1)) eff)
         else if prev = K then size_mod (current + attempt) eff
         else size_mod (prev + 1 + attempt) eff)"
  by (simp add: GetStartIndex_def effective_count_def nearest_window_def Let_def)

lemma min_window_zero: "min (nearest_window b) eff = 0 \<longleftrightarrow> eff = 0"
  using nearest_window_nonzero [of b] by (auto simp add: min_def)

lemma unat_min: "unat (min a b :: size_t) = min (unat a) (unat b)"
  by (simp add: min_def word_le_nat_alt)

lemma unat_plus_no_wrap:
  "unat a + unat b < 2 ^ 64 \<Longrightarrow> unat (a + b :: size_t) = unat a + unat b"
  using unat_add_lem [of a b] by simp

lemma GetStartIndex_closed:
  assumes eff: "eff = effective_count (prev = K) (attempt = 0) (allow_reads_from_master cc) count"
    and window: "window = nearest_window (best_dc_count cc)"
  shows "GetStartIndex K cc attempt nearest prev current count =
      (if eff = 0 then Inl DivisionByZero
         else Inr (if nearest then
                     (if prev = K then
                        (if attempt = 0 then (current mod min window eff) mod eff
                         else (attempt + current mod min window eff) mod eff)
                      else (prev + 1 + attempt) mod eff)
                   else if prev = K then (current + attempt) mod eff
                   else (prev + 1 + attempt) mod eff))"
proof -
  have unfolded: "GetStartIndex K cc attempt nearest prev current count =
     (if nearest then
           (if prev = K then
              (case size_mod current (min window eff) of
                 Inl e \<Rightarrow> Inl e
               | Inr r \<Rightarrow> size_mod (attempt + r) eff)
            else size_mod (attempt + (prev + 1)) eff)
         else if prev = K then size_mod (current + attempt) eff
         else size_mod (prev + 1 + attempt) eff)"
    unfolding eff window by (simp add: GetStartIndex_unfold Let_def)
  show ?thesis
  proof (cases "eff = 0")
    case True
    then show ?thesis
      unfolding unfolded window by (simp add: size_mod_def min_window_zero)
  next
    case False
    then have "min window eff \<noteq> 0"
      unfolding window by (simp add: min_window_zero)
    with False show ?thesis
      unfolding unfolded by (simp add: size_mod_def add.commute add.left_commute)
  qed
qed

lemma GetStartIndex_nat:
  assumes count: "count \<noteq> 0"
    and cur: "unat current + unat attempt < 2 ^ 64"
    and prev: "prev \<noteq> K \<Longrightarrow> unat prev + 1 + unat attempt < 2 ^ 64"
  shows "\<exists>r. GetStartIndex K cc attempt nearest prev current count = Inr r \<and>
     unat r = start_index_nat nearest (prev = K) (unat attempt) (unat prev) (unat current)
       (unat (nearest_window (best_dc_count cc)))
       (unat (effective_count (prev = K) (attempt = 0) (allow_reads_from_master cc) count))"
proof -
  define eff where
    "eff = effective_count (prev = K) (attempt = 0) (allow_reads_from_master cc) count"
  define window where "window = nearest_window (best_dc_count cc)"
  have eff: "eff \<noteq> 0" unfolding eff_def using count by (rule effective_count_nonzero)
  have a: "unat (current + attempt) = unat current + unat attempt"
    using cur by (rule unat_plus_no_wrap)
  have "unat (current mod min window eff) \<le> unat current"
    by (simp add: unat_mod)
  then have "unat attempt + unat (current mod min window eff) < 2 ^ 64" using cur by simp
  then have b: "unat (attempt + current mod min window eff) =
      unat attempt + unat current mod min (unat window) (unat eff)"
    by (simp add: unat_plus_no_wrap unat_mod unat_min)
  have c: "unat (prev + 1 + attempt) = unat prev + 1 + unat attempt" if "prev \<noteq> K"
  proof -
    from prev [OF that] have "unat prev + unat (1 :: size_t) < 2 ^ 64" by simp
    then have "unat (prev + 1) = unat prev + 1" using unat_plus_no_wrap [of prev 1] by simp
    with prev [OF that] show ?thesis using unat_plus_no_wrap [of "prev + 1" attempt] by simp
  qed
  show ?thesis
    unfolding GetStartIndex_closed [OF eff_def window_def] eff_def [symmetric]
      window_def [symmetric]
    using eff by (auto simp add: start_index_nat_def unat_mod a b c unat_min)
qed

text \<open>
  C5. The start index of \<^verbatim>\<open>GetStartIndex\<close>, for all inputs, in the arithmetic of
  \<^verbatim>\<open>size_t\<close>: with \<open>eff\<close> the effective count (the candidate count, reduced by one and
  clamped at one exactly on the first attempt of the first try with reads from the master
  disabled), a nearest-ping command starts at \<open>(current mod min window eff) mod eff\<close> on
  the first attempt of the first try and at \<open>(prev + 1 + attempt) mod eff\<close> on a retry; any
  other command starts at \<open>(current + attempt) mod eff\<close> on the first try and at
  \<open>(prev + 1 + attempt) mod eff\<close> on a retry. The window is unbounded for
  \<open>best_dc_count = 0\<close>. The only input without a start index is an effective count of
  zero, where the code divides by zero. For a candidate count of at least one the
  effective count, read as a natural number, is \<open>max (count - 1) 1\<close> or \<open>count\<close>, and
  where no sum wraps the start index is the same formula on natural numbers.
\<close>

theorem GetStartIndex_start_index:
  "GetStartIndex K cc attempt nearest prev current count =
     (let eff = effective_count (prev = K) (attempt = 0) (allow_reads_from_master cc) count;
          window = nearest_window (best_dc_count cc)
      in if eff = 0 then Inl DivisionByZero
         else Inr (if nearest then
                     (if prev = K then
                        (if attempt = 0 then (current mod min window eff) mod eff
                         else (attempt + current mod min window eff) mod eff)
                      else (prev + 1 + attempt) mod eff)
                   else if prev = K then (current + attempt) mod eff
                   else (prev + 1 + attempt) mod eff))
   \<and> (count \<noteq> 0 \<longrightarrow>
        unat (effective_count (prev = K) (attempt = 0) (allow_reads_from_master cc) count) =
          (if prev = K \<and> attempt = 0 \<and> \<not> allow_reads_from_master cc
           then max (unat count - 1) 1 else unat count))
   \<and> (count \<noteq> 0 \<and> unat current + unat attempt < 2 ^ 64 \<and>
       (prev = K \<or> unat prev + 1 + unat attempt < 2 ^ 64) \<longrightarrow>
        (\<exists>r. GetStartIndex K cc attempt nearest prev current count = Inr r \<and>
           unat r = start_index_nat nearest (prev = K) (unat attempt) (unat prev) (unat current)
             (unat (nearest_window (best_dc_count cc)))
             (unat (effective_count (prev = K) (attempt = 0) (allow_reads_from_master cc)
                count))))"
proof (intro conjI impI)
  show "GetStartIndex K cc attempt nearest prev current count =
     (let eff = effective_count (prev = K) (attempt = 0) (allow_reads_from_master cc) count;
          window = nearest_window (best_dc_count cc)
      in if eff = 0 then Inl DivisionByZero
         else Inr (if nearest then
                     (if prev = K then
                        (if attempt = 0 then (current mod min window eff) mod eff
                         else (attempt + current mod min window eff) mod eff)
                      else (prev + 1 + attempt) mod eff)
                   else if prev = K then (current + attempt) mod eff
                   else (prev + 1 + attempt) mod eff))"
    unfolding Let_def by (rule GetStartIndex_closed [OF refl refl])
next
  assume "count \<noteq> 0"
  then show "unat (effective_count (prev = K) (attempt = 0) (allow_reads_from_master cc) count) =
          (if prev = K \<and> attempt = 0 \<and> \<not> allow_reads_from_master cc
           then max (unat count - 1) 1 else unat count)"
    by (rule unat_effective_count)
next
  assume "count \<noteq> 0 \<and> unat current + unat attempt < 2 ^ 64 \<and>
       (prev = K \<or> unat prev + 1 + unat attempt < 2 ^ 64)"
  then show "\<exists>r. GetStartIndex K cc attempt nearest prev current count = Inr r \<and>
           unat r = start_index_nat nearest (prev = K) (unat attempt) (unat prev) (unat current)
             (unat (nearest_window (best_dc_count cc)))
             (unat (effective_count (prev = K) (attempt = 0) (allow_reads_from_master cc)
                count))"
    by (intro GetStartIndex_nat) auto
qed

theorem GetStartIndex_start_index_witness:
  "(3 :: size_t) \<noteq> 0 \<and> unat (7 :: size_t) + unat (0 :: size_t) < 2 ^ 64
   \<and> GetStartIndex (- 1)
        \<lparr>strategy = kDefault, force_server_id = AnyServer,
         allow_reads_from_master = False, best_dc_count = 0\<rparr> 0 False (- 1) 7 3 = Inr 1
   \<and> unat (effective_count True True False (3 :: size_t)) = 2
   \<and> start_index_nat False True 0 (unat (- 1 :: size_t)) 7 (unat (- 1 :: size_t)) 2 = 1"
  using GetStartIndex_start_index [of "- 1"
      "\<lparr>strategy = kDefault, force_server_id = AnyServer,
        allow_reads_from_master = False, best_dc_count = 0\<rparr>" 0 False "- 1" 7 3]
  by (simp add: effective_count_def nearest_window_def start_index_nat_def)

subsection \<open>Shard: the availability mask and the selection\<close>


lemma length_mark_forced:
  "mark_forced srv es i result = Some r \<Longrightarrow> length r = length result"
  by (induction es arbitrary: i) (auto split: if_splits)

lemma mark_forced_Some:
  "mark_forced srv es i (replicate n False) = Some r \<Longrightarrow>
     \<exists>j < length es. r = (replicate n False)[i + j := True] \<and> GetServerId (inst (es ! j)) = srv"
proof (induction es arbitrary: i)
  case Nil
  then show ?case by simp
next
  case (Cons e es)
  show ?case
  proof (cases "GetServerId (inst e) = srv")
    case True
    with Cons.prems have "r = (replicate n False)[i + 0 := True]" by simp
    with True show ?thesis by (intro exI [of _ 0]) simp
  next
    case False
    with Cons.prems have "mark_forced srv es (Suc i) (replicate n False) = Some r" by simp
    from Cons.IH [OF this] obtain j where
      "j < length es" "r = (replicate n False)[Suc i + j := True]"
      "GetServerId (inst (es ! j)) = srv" by blast
    then show ?thesis by (intro exI [of _ "Suc j"]) simp
  qed
qed

lemma mark_forced_None:
  "mark_forced srv es i result = None \<longleftrightarrow> (\<forall>e \<in> set es. GetServerId (inst e) \<noteq> srv)"
  by (induction es arbitrary: i) auto

lemma length_mark_nearest:
  "length (mark_nearest insts wm ws ps count result) = length result"
  by (induction insts wm ws ps count result rule: mark_nearest.induct) auto

lemma length_GetAvailableServers:
  "length (fst (GetAvailableServers insts cc wm ws)) = length insts"
  by (auto simp add: GetAvailableServers_def GetNearestServersPing_def length_mark_nearest
      length_mark_forced split: option.splits Strategy.splits)

lemma forced_mask:
  assumes "\<not> IsAny (force_server_id cc)"
    and "fst (GetAvailableServers insts cc wm ws) ! k" and "k < length insts"
  shows "GetServerId (inst (insts ! k)) = force_server_id cc"
proof (cases "mark_forced (force_server_id cc) insts 0 (replicate (length insts) False)")
  case None
  with assms show ?thesis by (simp add: GetAvailableServers_def)
next
  case (Some r)
  from mark_forced_Some [OF Some] obtain j where j: "j < length insts"
    "r = (replicate (length insts) False)[0 + j := True]"
    "GetServerId (inst (insts ! j)) = force_server_id cc" by blast
  from assms Some have "r ! k" by (simp add: GetAvailableServers_def)
  with j assms(3) have "k = j" by (cases "k = j") simp_all
  with j show ?thesis by simp
qed

lemma forced_mask_absent:
  assumes "\<not> IsAny (force_server_id cc)"
    and "\<forall>e \<in> set insts. GetServerId (inst e) \<noteq> force_server_id cc"
  shows "GetAvailableServers insts cc wm ws =
           (replicate (length insts) False, [WarnServerIdNotFound (force_server_id cc)])"
  using assms mark_forced_None [of "force_server_id cc" insts 0 "replicate (length insts) False"]
  by (simp add: GetAvailableServers_def)

lemma GetInstance_step_eligible:
  assumes "insts \<noteq> []" and "GetInstance_step insts av fb skip ro cur found i = Some k"
  shows "found = Some k \<or> eligible insts av fb skip ro k"
  using assms
  by (auto simp add: GetInstance_step_def eligible_def Let_def split: if_splits)

lemma foldl_GetInstance_step:
  assumes "insts \<noteq> []"
    and "foldl (GetInstance_step insts av fb skip ro cur) found xs = Some k"
  shows "found = Some k \<or> eligible insts av fb skip ro k"
  using assms(2)
proof (induction xs arbitrary: found)
  case Nil
  then show ?case by simp
next
  case (Cons x xs)
  from Cons.IH [of "GetInstance_step insts av fb skip ro cur found x"] Cons.prems
  have "GetInstance_step insts av fb skip ro cur found x = Some k \<or> eligible insts av fb skip ro k"
    by simp
  then show ?case using GetInstance_step_eligible [OF assms(1)] by blast
qed

lemma GetInstance_Some:
  assumes "GetInstance insts av fb skip ro cur = Some k"
  shows "eligible insts av fb skip ro k"
proof -
  have "insts \<noteq> []" using assms by (auto simp add: GetInstance_def)
  from foldl_GetInstance_step [OF this] assms show ?thesis
    by (fastforce simp add: GetInstance_def)
qed

subsection \<open>Shard: the attempt loop\<close>


lemma GetInstance_None:
  assumes "\<And>k. k < length insts \<Longrightarrow> \<not> eligible insts av fb skip ro k"
  shows "GetInstance insts av fb skip ro cur = None"
proof (cases "GetInstance insts av fb skip ro cur")
  case None
  then show ?thesis .
next
  case (Some k)
  from GetInstance_Some [OF Some] have "eligible insts av fb skip ro k" .
  moreover from this have "k < length insts" by (simp add: eligible_def)
  ultimately show ?thesis using assms by blast
qed

lemma attempts_sent:
  assumes sel: "\<And>fb skip cur k.
      GetInstance insts av fb skip (cmd_read_only command) cur = Some k \<Longrightarrow>
      (fb \<Longrightarrow> IsAny (force_server_id (control command))) \<Longrightarrow> P k"
    and "\<forall>k \<in> set (as_sent st). P k"
  shows "\<forall>k \<in> set (as_sent (snd (attempts accept insts command av as st))). P k"
  using assms(2)
proof (induction as arbitrary: st)
  case Nil
  then show ?case by simp
next
  case (Cons attempt rest)
  let ?fb = "attempt \<noteq> 0 \<and> IsAny (force_server_id (control command))"
  let ?skip = "if attempt = 0 then instance_idx command else - 1"
  let ?found = "GetInstance insts av ?fb ?skip (cmd_read_only command) (as_current st + 1)"
  show ?case
  proof (cases ?found)
    case None
    let ?st1 = "st\<lparr>as_current := as_current st + 1, as_idx := as_idx st,
                   as_instance_idx := of_nat (as_idx st)\<rparr>"
    have "attempts accept insts command av (attempt # rest) st =
          attempts accept insts command av rest ?st1"
      using None by (simp add: Let_def)
    moreover have "\<forall>k \<in> set (as_sent ?st1). P k" using Cons.prems by simp
    ultimately show ?thesis using Cons.IH [of ?st1] by simp
  next
    case (Some k)
    have Pk: "P k" using sel [OF Some] by simp
    let ?st1 = "st\<lparr>as_current := as_current st + 1, as_idx := k,
                   as_instance_idx := of_nat k\<rparr>"
    let ?st2 = "if k \<ge> length av \<or> \<not> av ! k
                then ?st1\<lparr>as_log := as_log ?st1 @ [WarnFallbackToAny]\<rparr> else ?st1"
    let ?st3 = "?st2\<lparr>as_sent := as_sent ?st2 @ [k]\<rparr>"
    have step: "attempts accept insts command av (attempt # rest) st =
          (if accept attempt (inst (insts ! k)) then (True, ?st3)
           else attempts accept insts command av rest ?st3)"
      using Some by (simp add: Let_def)
    have sent3: "\<forall>j \<in> set (as_sent ?st3). P j" using Cons.prems Pk by simp
    show ?thesis
    proof (cases "accept attempt (inst (insts ! k))")
      case True
      then show ?thesis using sent3 unfolding step by simp
    next
      case False
      then show ?thesis using Cons.IH [OF sent3] unfolding step by simp
    qed
  qed
qed

lemma attempts_sent_grows:
  "\<exists>more. as_sent (snd (attempts accept insts command av as st)) = as_sent st @ more
     \<and> (fst (attempts accept insts command av as st) \<longrightarrow> more \<noteq> [])"
proof (induction as arbitrary: st)
  case Nil
  then show ?case by simp
next
  case (Cons attempt rest)
  let ?fb = "attempt \<noteq> 0 \<and> IsAny (force_server_id (control command))"
  let ?skip = "if attempt = 0 then instance_idx command else - 1"
  let ?found = "GetInstance insts av ?fb ?skip (cmd_read_only command) (as_current st + 1)"
  show ?case
  proof (cases ?found)
    case None
    let ?st1 = "st\<lparr>as_current := as_current st + 1, as_idx := as_idx st,
                   as_instance_idx := of_nat (as_idx st)\<rparr>"
    have "attempts accept insts command av (attempt # rest) st =
          attempts accept insts command av rest ?st1"
      using None by (simp add: Let_def)
    then show ?thesis using Cons.IH [of ?st1] by simp
  next
    case (Some k)
    let ?st1 = "st\<lparr>as_current := as_current st + 1, as_idx := k,
                   as_instance_idx := of_nat k\<rparr>"
    let ?st2 = "if k \<ge> length av \<or> \<not> av ! k
                then ?st1\<lparr>as_log := as_log ?st1 @ [WarnFallbackToAny]\<rparr> else ?st1"
    let ?st3 = "?st2\<lparr>as_sent := as_sent ?st2 @ [k]\<rparr>"
    have step: "attempts accept insts command av (attempt # rest) st =
          (if accept attempt (inst (insts ! k)) then (True, ?st3)
           else attempts accept insts command av rest ?st3)"
      using Some by (simp add: Let_def)
    have sent3: "as_sent ?st3 = as_sent st @ [k]" by simp
    show ?thesis
    proof (cases "accept attempt (inst (insts ! k))")
      case True
      then show ?thesis unfolding step using sent3 by simp
    next
      case False
      from Cons.IH [of ?st3] obtain more where
        "as_sent (snd (attempts accept insts command av rest ?st3)) = as_sent ?st3 @ more"
        by blast
      then have "as_sent (snd (attempts accept insts command av rest ?st3)) =
          as_sent st @ ([k] @ more)" unfolding sent3 by simp
      then show ?thesis unfolding step using False by (intro exI [of _ "[k] @ more"]) simp
    qed
  qed
qed

lemma attempts_accepted:
  "fst (attempts accept insts command av as st) \<Longrightarrow>
     as_sent (snd (attempts accept insts command av as st)) \<noteq> []"
  using attempts_sent_grows [of accept insts command av as st] by auto

lemma attempts_none:
  assumes none: "\<And>fb skip cur. (fb \<Longrightarrow> IsAny (force_server_id (control command))) \<Longrightarrow>
      GetInstance insts av fb skip (cmd_read_only command) cur = None"
  shows "fst (attempts accept insts command av as st) = False
       \<and> as_sent (snd (attempts accept insts command av as st)) = as_sent st
       \<and> as_log (snd (attempts accept insts command av as st)) = as_log st
       \<and> as_idx (snd (attempts accept insts command av as st)) = as_idx st
       \<and> as_current (snd (attempts accept insts command av as st)) =
           as_current st + of_nat (length as)
       \<and> as_instance_idx (snd (attempts accept insts command av as st)) =
           (if as = [] then as_instance_idx st else of_nat (as_idx st))"
proof (induction as arbitrary: st)
  case Nil
  then show ?case by simp
next
  case (Cons attempt rest)
  show ?case
    by (simp add: none Let_def Cons.IH add.assoc add.commute)
qed

subsection \<open>Shard: submit\<close>


lemma AsyncCommand_sent:
  assumes sel: "\<And>fb skip cur k av log0.
      GetAvailableServers (instances s) (control command)
        (\<not> cmd_read_only command \<or> allow_reads_from_master (control command))
        (cmd_read_only command) = (av, log0) \<Longrightarrow>
      GetInstance (instances s) av fb skip (cmd_read_only command) cur = Some k \<Longrightarrow>
      (fb \<Longrightarrow> IsAny (force_server_id (control command))) \<Longrightarrow> P k"
  shows "\<forall>k \<in> set (sent_to (AsyncCommand accept s command)). P k"
proof (cases "destroying s")
  case True
  then show ?thesis by (simp add: AsyncCommand_def)
next
  case False
  obtain av log0 where av: "GetAvailableServers (instances s) (control command)
        (\<not> cmd_read_only command \<or> allow_reads_from_master (control command))
        (cmd_read_only command) = (av, log0)" by (cases "GetAvailableServers (instances s) (control command)
        (\<not> cmd_read_only command \<or> allow_reads_from_master (control command))
        (cmd_read_only command)")
  let ?st0 = "\<lparr>as_current = current_counter s, as_idx = 0,
               as_instance_idx = instance_idx command, as_log = log0, as_sent = []\<rparr>"
  let ?run = "attempts accept (instances s) command av [0..<length (instances s) + 1] ?st0"
  have "\<forall>k \<in> set (as_sent (snd ?run)). P k"
    by (rule attempts_sent) (use sel [OF av] in auto)
  moreover have "sent_to (AsyncCommand accept s command) = as_sent (snd ?run)"
    using False av by (simp add: AsyncCommand_def Let_def split: prod.splits)
  ultimately show ?thesis by simp
qed

lemma AsyncCommand_accepted_sent:
  assumes "accepted (AsyncCommand accept s command)"
  shows "sent_to (AsyncCommand accept s command) \<noteq> []"
proof (cases "destroying s")
  case True
  with assms show ?thesis by (simp add: AsyncCommand_def)
next
  case False
  obtain av log0 where av: "GetAvailableServers (instances s) (control command)
        (\<not> cmd_read_only command \<or> allow_reads_from_master (control command))
        (cmd_read_only command) = (av, log0)" by (cases "GetAvailableServers (instances s) (control command)
        (\<not> cmd_read_only command \<or> allow_reads_from_master (control command))
        (cmd_read_only command)")
  let ?st0 = "\<lparr>as_current = current_counter s, as_idx = 0,
               as_instance_idx = instance_idx command, as_log = log0, as_sent = []\<rparr>"
  let ?run = "attempts accept (instances s) command av [0..<length (instances s) + 1] ?st0"
  have acc: "accepted (AsyncCommand accept s command) = fst ?run"
    using False av by (simp add: AsyncCommand_def Let_def split: prod.splits)
  have "sent_to (AsyncCommand accept s command) = as_sent (snd ?run)"
    using False av by (simp add: AsyncCommand_def Let_def split: prod.splits)
  with assms acc attempts_accepted [of accept "instances s" command av _ ?st0]
  show ?thesis by simp
qed

lemma AsyncCommand_none:
  assumes "\<not> destroying s"
    and av: "GetAvailableServers (instances s) (control command)
        (\<not> cmd_read_only command \<or> allow_reads_from_master (control command))
        (cmd_read_only command) = (av, log0)"
    and none: "\<And>fb skip cur. (fb \<Longrightarrow> IsAny (force_server_id (control command))) \<Longrightarrow>
      GetInstance (instances s) av fb skip (cmd_read_only command) cur = None"
  shows "accepted (AsyncCommand accept s command) = False
       \<and> sent_to (AsyncCommand accept s command) = []
       \<and> logged (AsyncCommand accept s command) = log0 @ [WarnNoServerReady]
       \<and> instance_idx (command_after (AsyncCommand accept s command)) = 0
       \<and> current_counter (shard_after (AsyncCommand accept s command)) =
           current_counter s + of_nat (length (instances s) + 1)"
proof -
  let ?st0 = "\<lparr>as_current = current_counter s, as_idx = 0,
               as_instance_idx = instance_idx command, as_log = log0, as_sent = []\<rparr>"
  let ?run = "attempts accept (instances s) command av [0..<length (instances s) + 1] ?st0"
  note run = attempts_none [where insts = "instances s" and av = av and command = command
      and accept = accept and as = "[0..<length (instances s) + 1]" and st = ?st0, OF none]
  have "AsyncCommand accept s command =
      \<lparr>accepted = fst ?run,
        shard_after = s\<lparr>current_counter := as_current (snd ?run)\<rparr>,
        command_after = command\<lparr>instance_idx := as_instance_idx (snd ?run)\<rparr>,
        logged = (if fst ?run then as_log (snd ?run) else as_log (snd ?run) @ [WarnNoServerReady]),
        sent_to = as_sent (snd ?run)\<rparr>"
    using assms(1) av by (simp add: AsyncCommand_def Let_def split: prod.splits)
  then show ?thesis using run by simp
qed

subsection \<open>Shard: role filtering and a missing pinned id\<close>


text \<open>
  C2. A writable command is never handed to an instance whose \<open>info.read_only\<close> is true,
  on any attempt: every index in \<open>sent_to\<close> is the index of an instance that is not
  read-only. In particular, in a shard whose instances are all read-only or destroying (a
  single destroying master and its replicas), a writable submit hands the command to no
  instance and returns false.
\<close>

theorem writable_never_to_read_only:
  assumes "\<not> cmd_read_only command"
  shows "(\<forall>k \<in> set (sent_to (AsyncCommand accept s command)).
            k < length (instances s) \<and> \<not> read_only (info (instances s ! k)))
       \<and> ((\<forall>e \<in> set (instances s). read_only (info e) \<or> IsDestroying (inst e)) \<longrightarrow>
            \<not> accepted (AsyncCommand accept s command) \<and>
            sent_to (AsyncCommand accept s command) = [])"
proof (intro conjI impI)
  show "\<forall>k \<in> set (sent_to (AsyncCommand accept s command)).
            k < length (instances s) \<and> \<not> read_only (info (instances s ! k))"
  proof (rule AsyncCommand_sent)
    fix fb skip cur k av
    assume "GetInstance (instances s) av fb skip (cmd_read_only command) cur = Some k"
    from GetInstance_Some [OF this] assms
    show "k < length (instances s) \<and> \<not> read_only (info (instances s ! k))"
      by (simp add: eligible_def)
  qed
next
  assume all: "\<forall>e \<in> set (instances s). read_only (info e) \<or> IsDestroying (inst e)"
  have "\<forall>k \<in> set (sent_to (AsyncCommand accept s command)). False"
  proof (rule AsyncCommand_sent)
    fix fb skip cur k av
    assume "GetInstance (instances s) av fb skip (cmd_read_only command) cur = Some k"
    from GetInstance_Some [OF this] assms
    have "k < length (instances s)" "\<not> read_only (info (instances s ! k))"
      "\<not> IsDestroying (inst (instances s ! k))"
      by (simp_all add: eligible_def)
    with all show False using nth_mem by blast
  qed
  then have none: "sent_to (AsyncCommand accept s command) = []"
    by (cases "sent_to (AsyncCommand accept s command)") auto
  with AsyncCommand_accepted_sent [of accept s command]
  show "\<not> accepted (AsyncCommand accept s command)" by blast
  show "sent_to (AsyncCommand accept s command) = []" by (rule none)
qed

theorem writable_never_to_read_only_witness:
  "\<not> cmd_read_only (command_of False AnyServer (- 1))
   \<and> \<not> accepted (AsyncCommand accept_all
        (shard_of [entry_of (redis_m\<lparr>IsDestroying := True\<rparr>) False,
                   entry_of redis_r1 True, entry_of redis_r2 True] [])
        (command_of False AnyServer (- 1)))
   \<and> sent_to (AsyncCommand accept_all
        (shard_of [entry_of (redis_m\<lparr>IsDestroying := True\<rparr>) False,
                   entry_of redis_r1 True, entry_of redis_r2 True] [])
        (command_of False AnyServer (- 1))) = []"
  using writable_never_to_read_only [of "command_of False AnyServer (- 1)" accept_all
      "shard_of [entry_of (redis_m\<lparr>IsDestroying := True\<rparr>) False,
                 entry_of redis_r1 True, entry_of redis_r2 True] []"]
  by (simp add: example_defs)

lemma AsyncCommand_pinned_absent:
  assumes "\<not> IsAny (force_server_id (control command))"
    and "\<forall>e \<in> set (instances s). GetServerId (inst e) \<noteq> force_server_id (control command)"
  shows "\<not> accepted (AsyncCommand accept s command)
       \<and> sent_to (AsyncCommand accept s command) = []
       \<and> (if destroying s
          then logged (AsyncCommand accept s command) = [] \<and>
               command_after (AsyncCommand accept s command) = command
          else logged (AsyncCommand accept s command) =
                 [WarnServerIdNotFound (force_server_id (control command)), WarnNoServerReady] \<and>
               instance_idx (command_after (AsyncCommand accept s command)) = 0)"
proof (cases "destroying s")
  case True
  then show ?thesis by (simp add: AsyncCommand_def)
next
  case False
  let ?av = "replicate (length (instances s)) False"
  have av: "GetAvailableServers (instances s) (control command)
        (\<not> cmd_read_only command \<or> allow_reads_from_master (control command))
        (cmd_read_only command) =
      (?av, [WarnServerIdNotFound (force_server_id (control command))])"
    by (rule forced_mask_absent) (use assms in auto)
  have none: "GetInstance (instances s) ?av fb skip (cmd_read_only command) cur = None"
    if fb: "fb \<Longrightarrow> IsAny (force_server_id (control command))" for fb skip cur
  proof (rule GetInstance_None)
    fix k
    assume "k < length (instances s)"
    moreover have "\<not> fb" using fb assms(1) by blast
    ultimately show "\<not> eligible (instances s) ?av fb skip (cmd_read_only command) k"
      by (simp add: eligible_def)
  qed
  from AsyncCommand_none [OF False av none, of accept] False show ?thesis by simp
qed


text \<open>
  C3. A command pinned to a server id that no instance carries: submit returns false and
  hands the command to no instance. On a shard that is not destroying it writes two
  warnings, "server_id not found" from the mask and "no server is ready" after the loop,
  and leaves zero in \<open>command.instance_idx\<close> (the local index, never written by the
  selection, is written back on every attempt). On a destroying shard it writes nothing
  and leaves the command as it was.
\<close>

theorem pinned_id_missing:
  assumes "\<not> IsAny (force_server_id (control command))"
    and "\<forall>e \<in> set (instances s). GetServerId (inst e) \<noteq> force_server_id (control command)"
  shows "\<not> accepted (AsyncCommand accept s command)
       \<and> sent_to (AsyncCommand accept s command) = []
       \<and> (if destroying s
          then logged (AsyncCommand accept s command) = [] \<and>
               command_after (AsyncCommand accept s command) = command
          else logged (AsyncCommand accept s command) =
                 [WarnServerIdNotFound (force_server_id (control command)), WarnNoServerReady] \<and>
               instance_idx (command_after (AsyncCommand accept s command)) = 0)"
  using assms by (rule AsyncCommand_pinned_absent)

theorem pinned_id_missing_witness:
  "\<not> IsAny (force_server_id (control (command_of False (Server 9) 5)))
   \<and> GetServerId (inst (entry_of redis_m False)) \<noteq> Server 9
   \<and> \<not> accepted (AsyncCommand accept_all (shard_of [entry_of redis_m False] [])
          (command_of False (Server 9) 5))
   \<and> logged (AsyncCommand accept_all (shard_of [entry_of redis_m False] [])
          (command_of False (Server 9) 5)) =
        [WarnServerIdNotFound (Server 9), WarnNoServerReady]"
  using pinned_id_missing [of "command_of False (Server 9) 5"
      "shard_of [entry_of redis_m False] []" accept_all]
  by (simp add: example_defs)

text \<open>
  The claim as stated fails: with one connected instance of id 1, a command pinned to id 9
  whose \<open>instance_idx\<close> is 5 comes back with \<open>instance_idx = 0\<close>, and two warnings are
  written, not one.
\<close>

theorem pinned_id_missing_counterexample:
  "instance_idx (command_of False (Server 9) 5) = 5
   \<and> instance_idx (command_after (AsyncCommand accept_all
        (shard_of [entry_of redis_m False] []) (command_of False (Server 9) 5))) = 0
   \<and> length (logged (AsyncCommand accept_all
        (shard_of [entry_of redis_m False] []) (command_of False (Server 9) 5))) = 2"
  using AsyncCommand_pinned_absent [of "command_of False (Server 9) 5"
      "shard_of [entry_of redis_m False] []" accept_all]
  by (simp add: example_defs)

subsection \<open>ClusterShard: the direct path; the destroying flag\<close>


lemma find_replica_Some:
  "find_replica srv rs = Inr (Some r) \<Longrightarrow> GetServerId r = srv"
  by (induction rs) (auto split: option.splits if_splits)

lemma GetAvailableServer_pinned:
  assumes "ro" and "GetAvailableServer cs cc ro = Inr (Some r, log0)"
  shows "GetServerId r = force_server_id cc"
  using assms find_replica_Some [of "force_server_id cc" "replicas cs" r]
  by (auto simp add: GetAvailableServer_def split: if_splits option.splits sum.splits)

lemma GetAvailableServer_writable:
  assumes "\<not> ro" and "GetAvailableServer cs cc ro = Inr (found, log0)"
  shows "\<exists>h. master cs = Some h \<and> Get h = found"
  using assms by (auto simp add: GetAvailableServer_def split: option.splits)

lemma Cluster_AsyncCommand_direct:
  assumes "\<not> cmd_read_only command \<or> \<not> IsAny (force_server_id (control command))"
    and "Cluster_AsyncCommand K psort accept cs command = Inr res"
  shows "\<exists>found log0. GetAvailableServer cs (control command) (cmd_read_only command) =
            Inr (found, log0)
          \<and> cl_sent_to res = (case found of None \<Rightarrow> [] | Some r \<Rightarrow> [r])
          \<and> cl_accepted res = (case found of None \<Rightarrow> False | Some r \<Rightarrow> accept 0 r)"
  using assms
  by (auto simp add: Cluster_AsyncCommand_def split: sum.splits option.splits prod.splits)

lemma destroying_run_operation:
  "destroying s \<Longrightarrow> destroying (run_operation s op)"
  by (cases op)
    (auto simp add: Clean_def ProcessCreation_def UpdateCleanWaitQueue_def ProcessStateUpdate_def
      SetConnectionInfo_def AsyncCommand_def Let_def split: prod.splits)

lemma destroying_foldl_run_operation:
  "destroying s \<Longrightarrow> destroying (foldl run_operation s ops)"
  by (induction ops arbitrary: s) (simp_all add: destroying_run_operation)

subsection \<open>A forced server id; the closed door\<close>


text \<open>
  C1. A command with a forced server id. In a \<^verbatim>\<open>Shard\<close>, every instance the command is
  handed to carries the forced id, on every attempt, and a submit that returns true has
  handed it to one. In a \<^verbatim>\<open>ClusterShard\<close> the same holds for a read-only command; a
  writable command goes to the master without a look at the forced id.
\<close>

theorem pin_respected:
  assumes "\<not> IsAny (force_server_id (control command))"
  shows "(\<forall>k \<in> set (sent_to (AsyncCommand accept s command)).
            k < length (instances s) \<and>
            GetServerId (inst (instances s ! k)) = force_server_id (control command))
       \<and> (accepted (AsyncCommand accept s command) \<longrightarrow>
            sent_to (AsyncCommand accept s command) \<noteq> [])
       \<and> (\<forall>res. Cluster_AsyncCommand K psort accept cs command = Inr res \<longrightarrow>
            (cl_accepted res \<longrightarrow> cl_sent_to res \<noteq> []) \<and>
            (if cmd_read_only command
             then \<forall>r \<in> set (cl_sent_to res). GetServerId r = force_server_id (control command)
             else \<forall>r \<in> set (cl_sent_to res). \<exists>h. master cs = Some h \<and> Get h = Some r))"
proof (intro conjI allI impI)
  show "\<forall>k \<in> set (sent_to (AsyncCommand accept s command)).
            k < length (instances s) \<and>
            GetServerId (inst (instances s ! k)) = force_server_id (control command)"
  proof (rule AsyncCommand_sent)
    fix fb skip cur k av log0
    assume av: "GetAvailableServers (instances s) (control command)
        (\<not> cmd_read_only command \<or> allow_reads_from_master (control command))
        (cmd_read_only command) = (av, log0)"
      and found: "GetInstance (instances s) av fb skip (cmd_read_only command) cur = Some k"
      and fb: "fb \<Longrightarrow> IsAny (force_server_id (control command))"
    have "\<not> fb" using fb assms by blast
    with GetInstance_Some [OF found] have k: "k < length (instances s)" "av ! k"
      by (simp_all add: eligible_def)
    from av have "av = fst (GetAvailableServers (instances s) (control command)
        (\<not> cmd_read_only command \<or> allow_reads_from_master (control command))
        (cmd_read_only command))" by simp
    with k forced_mask [OF assms, of "instances s" _ _ k]
    show "k < length (instances s) \<and>
          GetServerId (inst (instances s ! k)) = force_server_id (control command)"
      by simp
  qed
next
  assume "accepted (AsyncCommand accept s command)"
  then show "sent_to (AsyncCommand accept s command) \<noteq> []"
    by (rule AsyncCommand_accepted_sent)
next
  fix res
  assume res: "Cluster_AsyncCommand K psort accept cs command = Inr res"
  from Cluster_AsyncCommand_direct [OF _ res] assms
  obtain found log0 where
    gas: "GetAvailableServer cs (control command) (cmd_read_only command) = Inr (found, log0)"
    and sent: "cl_sent_to res = (case found of None \<Rightarrow> [] | Some r \<Rightarrow> [r])"
    and acc: "cl_accepted res = (case found of None \<Rightarrow> False | Some r \<Rightarrow> accept 0 r)"
    by blast
  {
    assume "cl_accepted res"
    with acc sent show "cl_sent_to res \<noteq> []" by (cases found) simp_all
  }
  show "if cmd_read_only command
        then \<forall>r \<in> set (cl_sent_to res). GetServerId r = force_server_id (control command)
        else \<forall>r \<in> set (cl_sent_to res). \<exists>h. master cs = Some h \<and> Get h = Some r"
  proof (cases "cmd_read_only command")
    case True
    with gas sent GetAvailableServer_pinned [of "cmd_read_only command" cs "control command"]
    show ?thesis by (cases found) auto
  next
    case False
    with gas sent GetAvailableServer_writable [of "cmd_read_only command" cs "control command"]
    show ?thesis by (cases found) auto
  qed
qed

theorem pin_respected_witness:
  "\<not> IsAny (force_server_id (control (command_of True (Server 2) (- 1))))
   \<and> accepted (AsyncCommand accept_all
       (shard_of [entry_of redis_m False, entry_of redis_r1 True] [])
       (command_of True (Server 2) (- 1)))
   \<and> sent_to (AsyncCommand accept_all
       (shard_of [entry_of redis_m False, entry_of redis_r1 True] [])
       (command_of True (Server 2) (- 1))) = [1]
   \<and> GetServerId (inst (instances
       (shard_of [entry_of redis_m False, entry_of redis_r1 True] []) ! 1)) = Server 2
   \<and> Cluster_AsyncCommand (- 1) keep_order accept_all
       (cluster_of redis_m [redis_r1]) (command_of True (Server 3) (- 1)) =
     Inr \<lparr>cl_accepted = False, cl_shard_after = cluster_of redis_m [redis_r1],
          cl_command_after = command_of True (Server 3) (- 1),
          cl_logged = [WarnServerIdNotFound (Server 3)], cl_sent_to = []\<rparr>"
proof -
  have run: "(accepted (AsyncCommand accept_all
       (shard_of [entry_of redis_m False, entry_of redis_r1 True] [])
       (command_of True (Server 2) (- 1))),
     sent_to (AsyncCommand accept_all
       (shard_of [entry_of redis_m False, entry_of redis_r1 True] [])
       (command_of True (Server 2) (- 1)))) = (True, [1])"
    by (simp add: AsyncCommand_def GetAvailableServers_def GetInstance_def GetInstance_step_def
        example_defs upt_2 upt_3 Let_def)
  have cl: "Cluster_AsyncCommand (- 1) keep_order accept_all
       (cluster_of redis_m [redis_r1]) (command_of True (Server 3) (- 1)) =
     Inr \<lparr>cl_accepted = False, cl_shard_after = cluster_of redis_m [redis_r1],
          cl_command_after = command_of True (Server 3) (- 1),
          cl_logged = [WarnServerIdNotFound (Server 3)], cl_sent_to = []\<rparr>"
    by (simp add: Cluster_AsyncCommand_def GetAvailableServer_def example_defs)
  have pinned: "\<not> IsAny (force_server_id (control (command_of True (Server 2) (- 1))))"
    by (simp add: command_of_def)
  from pin_respected [OF pinned, of accept_all
      "shard_of [entry_of redis_m False, entry_of redis_r1 True] []"
      "- 1" keep_order "cluster_of redis_m [redis_r1]"] run
  have "GetServerId (inst (instances
       (shard_of [entry_of redis_m False, entry_of redis_r1 True] []) ! 1)) = Server 2"
    by (simp add: command_of_def)
  with pinned run cl show ?thesis by simp
qed

text \<open>
  The claim as stated fails in a \<^verbatim>\<open>ClusterShard\<close>: a writable command pinned to the
  replica of id 2 is handed to the master, whose id is 1, and the submit returns true.
\<close>

theorem pin_respected_counterexample:
  "\<not> IsAny (force_server_id (control (command_of False (Server 2) (- 1))))
   \<and> Cluster_AsyncCommand (- 1) keep_order accept_all
       (cluster_of redis_m [redis_r1]) (command_of False (Server 2) (- 1)) =
     Inr \<lparr>cl_accepted = True, cl_shard_after = cluster_of redis_m [redis_r1],
          cl_command_after = command_of False (Server 2) (- 1), cl_logged = [],
          cl_sent_to = [redis_m]\<rparr>
   \<and> GetServerId redis_m = Server 1
   \<and> GetServerId redis_r1 = Server 2"
  by (simp add: Cluster_AsyncCommand_def GetAvailableServer_def example_defs)

text \<open>
  C8. After \<^verbatim>\<open>Clean()\<close> the flag \<open>destroying\<close> is set, and no operation of the shard
  resets it: whatever operations run afterwards, every submit, for every command, returns
  false and hands the command to no instance.
\<close>

theorem closed_door:
  "destroying (foldl run_operation (Clean s) ops)
   \<and> \<not> accepted (AsyncCommand accept (foldl run_operation (Clean s) ops) command)
   \<and> sent_to (AsyncCommand accept (foldl run_operation (Clean s) ops) command) = []"
proof -
  have "destroying (Clean s)" by (simp add: Clean_def)
  then have "destroying (foldl run_operation (Clean s) ops)"
    by (rule destroying_foldl_run_operation)
  then show ?thesis by (simp add: AsyncCommand_def)
qed

subsection \<open>Shard: the state update in closed form\<close>


lemma demote_instances_eq:
  "demote_instances es waiting changed =
     (filter connected es, waiting @ filter (\<lambda>e. \<not> connected e) es,
      changed \<or> \<not> list_all connected es)"
  by (induction es arbitrary: waiting changed) (auto simp add: connected_def)

lemma promote_clean_wait_eq:
  "promote_clean_wait now es st =
     (filter initial es,
      st\<lparr>ps_instances := ps_instances st @ filter connected es,
         ps_erase_clean_wait := ps_erase_clean_wait st @ filter terminal es,
         ps_instances_changed := (ps_instances_changed st \<or> list_ex connected es),
         ps_last_connected_time :=
           (if list_ex connected es then now else ps_last_connected_time st),
         ps_events := ps_events st @ map signal_ready (filter connected es)\<rparr>)"
proof (induction es arbitrary: st)
  case Nil
  then show ?case by simp
next
  case (Cons e es)
  show ?case
    by (cases "GetState (inst e)")
      (simp_all add: Cons.IH connected_def terminal_def signal_ready_def initial_def)
qed

lemma filter_not_connected:
  "filter connected (filter (\<lambda>e. \<not> connected e) es) = []"
  "filter initial (filter (\<lambda>e. \<not> connected e) es) = filter initial es"
  "filter terminal (filter (\<lambda>e. \<not> connected e) es) = filter terminal es"
  "list_ex connected (filter (\<lambda>e. \<not> connected e) es) = False"
  by (induction es) (auto simp add: connected_def initial_def terminal_def)

lemma not_connected_conj:
  "(\<not> connected e \<and> initial e) = initial e"
  "(\<not> connected e \<and> terminal e) = terminal e"
  by (auto simp add: connected_def initial_def terminal_def)

lemma filter_empty_list_ex: "filter P xs \<noteq> [] \<longleftrightarrow> list_ex P xs"
  by (induction xs) auto

lemma ProcessStateUpdate_closed:
  "ProcessStateUpdate now s =
    (\<not> list_all connected (instances s) \<or> list_ex connected (clean_wait s),
     s\<lparr>instances := filter connected (instances s) @ filter connected (clean_wait s),
       clean_wait := filter initial (clean_wait s) @ filter initial (instances s),
       last_connected_time :=
         (if list_ex connected (clean_wait s) then now else last_connected_time s),
       last_ready_time :=
         (if list_ex terminal (clean_wait s @ instances s) \<and>
             (if list_ex connected (clean_wait s) then now else last_connected_time s)
               > last_ready_time s
          then now else last_ready_time s),
       prev_connected := list_ex connected (instances s @ clean_wait s)\<rparr>,
     [LockExclusive] @ map signal_ready (filter connected (clean_wait s)) @ [Unlock] @
       ready_change_events s (list_ex connected (instances s @ clean_wait s)))"
proof -
  have nc: "(filter connected (instances s) @ filter connected (clean_wait s) \<noteq> []) =
      list_ex connected (instances s @ clean_wait s)"
    by (simp add: filter_empty_list_ex [symmetric])
  have te: "(filter terminal (clean_wait s) @ filter terminal (instances s) \<noteq> []) =
      list_ex terminal (clean_wait s @ instances s)"
    by (simp add: filter_empty_list_ex [symmetric])
  have ev: "(if prev_connected s \<noteq> nc then
               (case ready_change_callback s of
                  None \<Rightarrow> events1
                | Some callback \<Rightarrow>
                    events1 @ [ReadyChangeCallback nc] @
                    (if callback nc then [WarnCallbackException] else []))
             else events1) = events1 @ ready_change_events s nc" for events1 nc
    by (simp add: ready_change_events_def split: option.splits)
  show ?thesis
    unfolding ProcessStateUpdate_def demote_instances_eq promote_clean_wait_eq Let_def
      prod.case ev
    using nc te by (simp add: filter_not_connected not_connected_conj)
qed

subsection \<open>Shard: the creation step\<close>


lemma set_find_Some:
  "set_find xs x = Some ci \<Longrightarrow> ci \<in> set xs \<and> HostPort ci = HostPort x"
  by (auto simp add: set_find_def find_Some_iff)

lemma set_find_None: "set_find xs x = None \<longleftrightarrow> HostPort x \<notin> HostPort ` set xs"
  by (simp add: set_find_def find_None_iff image_iff) metis

lemma HostPort_read_only [simp]: "HostPort (ci\<lparr>read_only := r\<rparr>) = HostPort ci"
  by (simp add: HostPort_def)

lemma set_find_read_only [simp]: "set_find xs (ci\<lparr>read_only := r\<rparr>) = set_find xs ci"
  by (simp add: set_find_def)

lemma foldl_set_erase:
  "foldl (\<lambda>need e. set_erase need (info e)) xs es =
     filter (\<lambda>ci. HostPort ci \<notin> HostPort ` info ` set es) xs"
proof (induction es arbitrary: xs)
  case Nil
  then show ?case by simp
next
  case (Cons e es)
  have "foldl (\<lambda>need e. set_erase need (info e)) xs (e # es) =
      filter (\<lambda>ci. HostPort ci \<notin> HostPort ` info ` set es)
        (filter (\<lambda>ci. HostPort ci \<noteq> HostPort (info e)) xs)"
    using Cons.IH [of "set_erase xs (info e)"] by (simp add: set_erase_def [of xs])
  also have "\<dots> = filter (\<lambda>ci. HostPort ci \<notin> HostPort ` info ` set (e # es)) xs"
    unfolding filter_filter by (rule filter_cong) auto
  finally show ?case .
qed

lemma GetConnectionInfosToCreate_eq:
  "GetConnectionInfosToCreate s =
     filter (\<lambda>ci. HostPort ci \<notin> HostPort ` info ` set (instances s) \<and>
                  HostPort ci \<notin> HostPort ` info ` set (clean_wait s)) (connection_infos s)"
  by (simp add: GetConnectionInfosToCreate_def foldl_set_erase Let_def conj_commute)

lemma fst_prune_instances_Cons:
  "fst (prune_instances infos (e # es) b) =
     (case set_find infos (info e) of
        None \<Rightarrow> fst (prune_instances infos es True)
      | Some ci \<Rightarrow>
          if read_only ci \<noteq> read_only (info e)
          then e\<lparr>info := (info e)\<lparr>read_only := read_only ci\<rparr>\<rparr> #
               fst (prune_instances infos es True)
          else e # fst (prune_instances infos es b))"
  by (simp split: option.splits prod.splits)

lemma prune_instances_in_sync:
  "list_all (in_sync infos) (fst (prune_instances infos es b))"
proof (induction es arbitrary: b)
  case Nil
  then show ?case by simp
next
  case (Cons e es)
  show ?case
    using Cons.IH [of True] Cons.IH [of b]
    by (cases "set_find infos (info e)")
      (simp_all add: fst_prune_instances_Cons in_sync_def del: prune_instances.simps)
qed

lemma prune_instances_keys:
  "HostPort ` info ` set (fst (prune_instances infos es b)) =
     HostPort ` info ` set es \<inter> HostPort ` set infos"
proof (induction es arbitrary: b)
  case Nil
  then show ?case by simp
next
  case (Cons e es)
  show ?case
  proof (cases "set_find infos (info e)")
    case None
    then have "HostPort (info e) \<notin> HostPort ` set infos" by (simp add: set_find_None)
    with None show ?thesis using Cons.IH [of True]
      by (simp add: fst_prune_instances_Cons del: prune_instances.simps)
  next
    case (Some ci)
    then have "HostPort (info e) \<in> HostPort ` set infos"
      using set_find_None [of infos "info e"] by auto
    with Some show ?thesis using Cons.IH [of True] Cons.IH [of b]
      by (simp add: fst_prune_instances_Cons del: prune_instances.simps)
  qed
qed

lemma prune_instances_fixed:
  "list_all (in_sync infos) es \<Longrightarrow> prune_instances infos es b = (es, b)"
  by (induction es) (auto simp add: in_sync_def split: option.splits)

subsection \<open>Shard: running a reconciliation step twice\<close>


lemma ProcessCreation_closed:
  "ProcessCreation new_redis s =
     (snd (prune_instances (connection_infos s) (instances s) False),
      s\<lparr>clean_wait := clean_wait s @
           map (\<lambda>id. \<lparr>info = id, inst = new_redis (cluster_mode s \<and> read_only id) id\<rparr>)
             (GetConnectionInfosToCreate s),
         instances := fst (prune_instances (connection_infos s) (instances s) False)\<rparr>)"
  by (simp add: ProcessCreation_def UpdateCleanWaitQueue_def Let_def split: prod.splits)

lemma GetConnectionInfosToCreate_after:
  "GetConnectionInfosToCreate (snd (ProcessCreation new_redis s)) = []"
proof -
  let ?infos = "connection_infos s"
  let ?kept = "fst (prune_instances ?infos (instances s) False)"
  let ?need = "GetConnectionInfosToCreate s"
  let ?added = "map (\<lambda>id. \<lparr>info = id, inst = new_redis (cluster_mode s \<and> read_only id) id\<rparr>)
                  ?need"
  have added: "HostPort ` info ` set ?added = HostPort ` set ?need"
    by (simp add: image_image)
  have "HostPort ci \<in> HostPort ` info ` set ?kept \<or>
        HostPort ci \<in> HostPort ` info ` set (clean_wait s @ ?added)"
    if ci: "ci \<in> set ?infos" for ci
  proof (cases "HostPort ci \<in> HostPort ` info ` set (instances s)")
    case True
    with ci show ?thesis by (simp add: prune_instances_keys)
  next
    case False
    show ?thesis
    proof (cases "HostPort ci \<in> HostPort ` info ` set (clean_wait s)")
      case True
      then show ?thesis by (simp add: image_Un)
    next
      case notin: False
      with False ci have "ci \<in> set ?need" by (simp add: GetConnectionInfosToCreate_eq)
      then have "HostPort ci \<in> HostPort ` info ` set ?added" unfolding added by simp
      then show ?thesis by (simp only: set_append image_Un Un_iff simp_thms)
    qed
  qed
  then have covered: "\<not> (HostPort ci \<notin> HostPort ` info ` set ?kept \<and>
        HostPort ci \<notin> HostPort ` info ` set (clean_wait s @ ?added))"
    if "ci \<in> set ?infos" for ci
    using that by blast
  have s1: "connection_infos (snd (ProcessCreation new_redis s)) = ?infos"
    "instances (snd (ProcessCreation new_redis s)) = ?kept"
    "clean_wait (snd (ProcessCreation new_redis s)) = clean_wait s @ ?added"
    by (simp_all add: ProcessCreation_closed)
  show ?thesis
    unfolding GetConnectionInfosToCreate_eq [of "snd (ProcessCreation new_redis s)"] s1
      filter_empty_conv
    using covered by blast
qed

lemma ProcessCreation_twice:
  "ProcessCreation new_redis' (snd (ProcessCreation new_redis s)) =
     (False, snd (ProcessCreation new_redis s))"
proof -
  let ?s1 = "snd (ProcessCreation new_redis s)"
  have infos: "connection_infos ?s1 = connection_infos s"
    by (simp add: ProcessCreation_closed)
  have "list_all (in_sync (connection_infos ?s1)) (instances ?s1)"
    unfolding infos by (simp add: ProcessCreation_closed prune_instances_in_sync)
  then have fixed: "prune_instances (connection_infos ?s1) (instances ?s1) False =
      (instances ?s1, False)"
    by (rule prune_instances_fixed)
  show ?thesis
    unfolding ProcessCreation_closed [of new_redis' ?s1] fixed
      GetConnectionInfosToCreate_after
    by simp
qed

lemma filter_kinds:
  "filter connected (filter connected xs) = filter connected xs"
  "filter initial (filter initial xs) = filter initial xs"
  "filter connected (filter initial xs) = []"
  "filter initial (filter connected xs) = []"
  "list_all connected (filter connected xs)"
  "list_all initial (filter initial xs)"
  by (induction xs) (auto simp add: connected_def initial_def)

lemma ProcessStateUpdate_settled: "settled (fst (snd (ProcessStateUpdate now s)))"
  unfolding ProcessStateUpdate_closed settled_def
  by (simp add: filter_kinds filter_empty_list_ex [symmetric] del: filter_filter)

lemma list_all_filter_id: "list_all P xs \<Longrightarrow> filter P xs = xs"
  by (induction xs) auto

lemma settled_lists:
  assumes "list_all connected xs" and "list_all initial ys"
  shows "filter connected xs = xs" "filter initial ys = ys" "filter connected ys = []"
    "filter initial xs = []" "list_ex connected ys = False" "list_ex terminal xs = False"
    "list_ex terminal ys = False" "list_ex connected xs = (xs \<noteq> [])"
  using assms
  by (induction xs; induction ys; auto simp add: connected_def initial_def terminal_def)+

lemma ProcessStateUpdate_when_settled:
  assumes "settled s"
  shows "ProcessStateUpdate now s = (False, s, [LockExclusive, Unlock])"
proof -
  from assms have c: "list_all connected (instances s)" and i: "list_all initial (clean_wait s)"
    and p: "prev_connected s = (instances s \<noteq> [])"
    by (simp_all add: settled_def)
  note l = settled_lists [OF c i]
  show ?thesis
    unfolding ProcessStateUpdate_closed
    by (simp add: l c p ready_change_events_def)
qed

subsection \<open>Reconciliation: idempotence, demotion, signals\<close>


lemmas reconcile_defs = entry_a_def info_b_def info_eq_all_def connecting_def

text \<open>
  C7. Idempotent reconcile. A second \<^verbatim>\<open>ProcessCreation\<close> right after the first returns
  false and leaves the shard exactly as the first one left it, and so does a second
  \<^verbatim>\<open>ProcessStateUpdate\<close>, which emits no signal and no callback; this holds for every
  field of the shard, the counter and the times included, and whatever the clock reads at
  the second run.
\<close>

theorem reconcile_idempotent:
  "ProcessCreation new_redis' (snd (ProcessCreation new_redis s)) =
     (False, snd (ProcessCreation new_redis s))
   \<and> ProcessStateUpdate now' (fst (snd (ProcessStateUpdate now s))) =
     (False, fst (snd (ProcessStateUpdate now s)), [LockExclusive, Unlock])"
  using ProcessCreation_twice [of new_redis' new_redis s]
    ProcessStateUpdate_when_settled [OF ProcessStateUpdate_settled [of now s], of now']
  by simp

text \<open>
  C6. Demotion with a readiness flip, as the code does it. From \<open>instances = [a]\<close> and an
  empty \<open>clean_wait\<close>, with the handle of \<open>a\<close> in \<^verbatim>\<open>kDisconnecting\<close>, one
  \<^verbatim>\<open>ProcessStateUpdate\<close> returns true and leaves both \<open>instances\<close> and \<open>clean_wait\<close>
  empty: \<open>a\<close> moves to \<open>clean_wait\<close> in the first loop and is drained from it, as a
  terminal entry, in the second loop of the same call. If the shard was ready before
  (\<open>prev_connected\<close>) and has a readiness callback, the callback is called once, with
  false, after the lock is released; \<open>last_ready_time\<close> becomes the time of the call if
  \<open>last_connected_time\<close> is later than it.
\<close>

theorem demotion_drains_entry:
  assumes "instances s = [a]" and "clean_wait s = []" and "GetState (inst a) = kDisconnecting"
  shows "fst (ProcessStateUpdate now s)
       \<and> instances (fst (snd (ProcessStateUpdate now s))) = []
       \<and> clean_wait (fst (snd (ProcessStateUpdate now s))) = []
       \<and> prev_connected (fst (snd (ProcessStateUpdate now s))) = False
       \<and> last_ready_time (fst (snd (ProcessStateUpdate now s))) =
           (if last_connected_time s > last_ready_time s then now else last_ready_time s)
       \<and> snd (snd (ProcessStateUpdate now s)) =
           [LockExclusive, Unlock] @
           (if prev_connected s then
              (case ready_change_callback s of
                 None \<Rightarrow> []
               | Some callback \<Rightarrow>
                   ReadyChangeCallback False #
                   (if callback False then [WarnCallbackException] else []))
            else [])"
proof -
  have "\<not> connected a" "\<not> initial a" "terminal a"
    using assms(3) by (simp_all add: connected_def initial_def terminal_def)
  then show ?thesis
    unfolding ProcessStateUpdate_closed
    by (simp add: assms(1,2) ready_change_events_def)
qed

theorem demotion_drains_entry_witness:
  "instances ((shard_of [entry_a kDisconnecting] [])\<lparr>last_connected_time := 5\<rparr>) =
     [entry_a kDisconnecting]
   \<and> clean_wait ((shard_of [entry_a kDisconnecting] [])\<lparr>last_connected_time := 5\<rparr>) = []
   \<and> GetState (inst (entry_a kDisconnecting)) = kDisconnecting
   \<and> last_ready_time (fst (snd (ProcessStateUpdate 7
        ((shard_of [entry_a kDisconnecting] [])\<lparr>last_connected_time := 5\<rparr>)))) = 7
   \<and> snd (snd (ProcessStateUpdate 7
        ((shard_of [entry_a kDisconnecting] [])\<lparr>last_connected_time := 5\<rparr>))) =
       [LockExclusive, Unlock, ReadyChangeCallback False]"
  using demotion_drains_entry [of "(shard_of [entry_a kDisconnecting] [])\<lparr>last_connected_time := 5\<rparr>"
      "entry_a kDisconnecting" 7]
  by (simp add: example_defs reconcile_defs)

text \<open>
  The claim as stated fails: after the call the entry is not in \<open>clean_wait\<close>, which is
  empty.
\<close>

theorem demotion_drains_entry_counterexample:
  "instances ((shard_of [entry_a kDisconnecting] [])\<lparr>last_connected_time := 5\<rparr>) =
     [entry_a kDisconnecting]
   \<and> clean_wait ((shard_of [entry_a kDisconnecting] [])\<lparr>last_connected_time := 5\<rparr>) = []
   \<and> GetState (inst (entry_a kDisconnecting)) = kDisconnecting
   \<and> clean_wait (fst (snd (ProcessStateUpdate 7
        ((shard_of [entry_a kDisconnecting] [])\<lparr>last_connected_time := 5\<rparr>)))) = []"
  by (simp add: ProcessStateUpdate_closed example_defs reconcile_defs connected_def initial_def)

text \<open>
  C9. The events of \<^verbatim>\<open>ProcessStateUpdate\<close> in program order: the exclusive lock is
  taken; \<^verbatim>\<open>signal_instance_ready_\<close> is emitted, inside the scope of the lock, once for
  each connected entry of \<open>clean_wait\<close> in the order of promotion; the lock is released;
  only then the readiness callback is called, if the readiness changed.
\<close>

theorem signals_under_lock_callback_after:
  "snd (snd (ProcessStateUpdate now s)) =
     [LockExclusive] @ map signal_ready (filter connected (clean_wait s)) @ [Unlock] @
     ready_change_events s (list_ex connected (instances s @ clean_wait s))"
  by (simp add: ProcessStateUpdate_closed)

text \<open>
  The claim as stated fails: when the one entry of \<open>clean_wait\<close> is connected, the signal
  for it comes before the release of the lock.
\<close>

theorem signals_under_lock_counterexample:
  "snd (snd (ProcessStateUpdate 7 (shard_of [] [entry_a kConnected]))) =
     [LockExclusive, SignalInstanceReady (Server 1) False, Unlock, ReadyChangeCallback True]"
  by (simp add: ProcessStateUpdate_closed example_defs reconcile_defs connected_def
      signal_ready_def ready_change_events_def)

subsection \<open>Shard: membership after the creation step\<close>


lemma ProcessCreation_membership:
  "connection_infos (snd (ProcessCreation new_redis s)) = connection_infos s
   \<and> (\<forall>e \<in> set (instances (snd (ProcessCreation new_redis s))).
        \<exists>ci \<in> set (connection_infos s).
          HostPort ci = HostPort (info e) \<and> read_only ci = read_only (info e))
   \<and> HostPort ` info ` set (instances (snd (ProcessCreation new_redis s))) =
       HostPort ` info ` set (instances s) \<inter> HostPort ` set (connection_infos s)
   \<and> (\<exists>added. clean_wait (snd (ProcessCreation new_redis s)) = clean_wait s @ added
        \<and> (\<forall>e \<in> set added. info e \<in> set (connection_infos s)))"
proof (intro conjI)
  show "connection_infos (snd (ProcessCreation new_redis s)) = connection_infos s"
    by (simp add: ProcessCreation_closed)
next
  have "list_all (in_sync (connection_infos s)) (instances (snd (ProcessCreation new_redis s)))"
    by (simp add: ProcessCreation_closed prune_instances_in_sync)
  then have sync: "in_sync (connection_infos s) e"
    if "e \<in> set (instances (snd (ProcessCreation new_redis s)))" for e
    using that by (simp add: list_all_iff)
  show "\<forall>e \<in> set (instances (snd (ProcessCreation new_redis s))).
        \<exists>ci \<in> set (connection_infos s).
          HostPort ci = HostPort (info e) \<and> read_only ci = read_only (info e)"
  proof
    fix e
    assume "e \<in> set (instances (snd (ProcessCreation new_redis s)))"
    from sync [OF this] obtain ci where
      ci: "set_find (connection_infos s) (info e) = Some ci"
        "read_only ci = read_only (info e)"
      by (auto simp add: in_sync_def split: option.splits)
    from set_find_Some [OF ci(1)] ci(2)
    show "\<exists>ci \<in> set (connection_infos s).
          HostPort ci = HostPort (info e) \<and> read_only ci = read_only (info e)"
      by blast
  qed
next
  show "HostPort ` info ` set (instances (snd (ProcessCreation new_redis s))) =
       HostPort ` info ` set (instances s) \<inter> HostPort ` set (connection_infos s)"
    by (simp add: ProcessCreation_closed prune_instances_keys)
next
  let ?added = "map (\<lambda>id. \<lparr>info = id, inst = new_redis (cluster_mode s \<and> read_only id) id\<rparr>)
                  (GetConnectionInfosToCreate s)"
  have "clean_wait (snd (ProcessCreation new_redis s)) = clean_wait s @ ?added"
    by (simp add: ProcessCreation_closed)
  moreover have "\<forall>e \<in> set ?added. info e \<in> set (connection_infos s)"
    by (auto simp add: GetConnectionInfosToCreate_eq)
  ultimately show "\<exists>added. clean_wait (snd (ProcessCreation new_redis s)) = clean_wait s @ added
        \<and> (\<forall>e \<in> set added. info e \<in> set (connection_infos s))"
    by blast
qed

lemma run_example:
  "foldl run_operation ((shard_of [] [])\<lparr>connection_infos := [info_b]\<rparr>)
     [OpProcessCreation connecting, OpSetConnectionInfo info_eq_all [],
      OpProcessCreation connecting] =
   (shard_of [] [])\<lparr>clean_wait := [\<lparr>info = info_b, inst = connecting False info_b\<rparr>]\<rparr>"
  by (simp add: ProcessCreation_closed GetConnectionInfosToCreate_eq SetConnectionInfo_def
      shard_of_def)


text \<open>
  C4. Membership, as the code keeps it. \<^verbatim>\<open>ProcessCreation\<close> leaves \<open>connection_infos\<close>
  as it is; afterwards every entry of \<open>instances\<close> has an info in \<open>connection_infos\<close> with
  its host and port and its read-only flag, and the entries of \<open>instances\<close> whose host and
  port are not in \<open>connection_infos\<close> are gone; \<open>clean_wait\<close> is the old queue followed by
  new entries whose infos are in \<open>connection_infos\<close>. No entry leaves \<open>clean_wait\<close>: one
  whose info has been removed from \<open>connection_infos\<close> stays in the queue.
\<close>

theorem reconcile_create_membership:
  "connection_infos (snd (ProcessCreation new_redis s)) = connection_infos s
   \<and> (\<forall>e \<in> set (instances (snd (ProcessCreation new_redis s))).
        \<exists>ci \<in> set (connection_infos s).
          HostPort ci = HostPort (info e) \<and> read_only ci = read_only (info e))
   \<and> HostPort ` info ` set (instances (snd (ProcessCreation new_redis s))) =
       HostPort ` info ` set (instances s) \<inter> HostPort ` set (connection_infos s)
   \<and> (\<exists>added. clean_wait (snd (ProcessCreation new_redis s)) = clean_wait s @ added
        \<and> (\<forall>e \<in> set added. info e \<in> set (connection_infos s)))"
  by (rule ProcessCreation_membership)

theorem reconcile_create_membership_witness:
  "instances (snd (ProcessCreation connecting
      ((shard_of [entry_a kConnected] [])\<lparr>connection_infos := [info_b]\<rparr>))) = []
   \<and> clean_wait (snd (ProcessCreation connecting
      ((shard_of [entry_a kConnected] [])\<lparr>connection_infos := [info_b]\<rparr>))) =
       [\<lparr>info = info_b, inst = connecting False info_b\<rparr>]
   \<and> connection_infos (snd (ProcessCreation connecting
      ((shard_of [entry_a kConnected] [])\<lparr>connection_infos := [info_b]\<rparr>))) = [info_b]"
  using reconcile_create_membership [of connecting
      "(shard_of [entry_a kConnected] [])\<lparr>connection_infos := [info_b]\<rparr>"]
  by (simp add: ProcessCreation_closed GetConnectionInfosToCreate_eq set_find_def HostPort_def
      example_defs entry_a_def info_b_def)

text \<open>
  The claim as stated fails for \<open>clean_wait\<close>: the shard is created for the info \<open>b\<close>,
  \<^verbatim>\<open>ProcessCreation\<close> puts a connecting entry for \<open>b\<close> into \<open>clean_wait\<close>,
  \<^verbatim>\<open>SetConnectionInfo\<close> removes \<open>b\<close> from the desired set, and the next
  \<^verbatim>\<open>ProcessCreation\<close> leaves the entry where it is.
\<close>

theorem reconcile_create_membership_counterexample:
  "connection_infos (foldl run_operation ((shard_of [] [])\<lparr>connection_infos := [info_b]\<rparr>)
     [OpProcessCreation connecting, OpSetConnectionInfo info_eq_all [],
      OpProcessCreation connecting]) = []
   \<and> clean_wait (foldl run_operation ((shard_of [] [])\<lparr>connection_infos := [info_b]\<rparr>)
     [OpProcessCreation connecting, OpSetConnectionInfo info_eq_all [],
      OpProcessCreation connecting]) = [\<lparr>info = info_b, inst = connecting False info_b\<rparr>]"
  unfolding run_example by (simp add: shard_of_def)

subsection \<open>ClusterShard: the readiness bit of the statistics\<close>

lemma IsMasterReady_iff:
  "IsMasterReady cs \<longleftrightarrow> (\<exists>h. master cs = Some h \<and> holder_GetState h = kConnected)"
  by (simp add: IsMasterReady_def split: option.splits)

lemma IsReplicaReady_iff:
  "IsReplicaReady cs \<longleftrightarrow> (\<exists>h. Some h \<in> set (replicas cs) \<and> holder_GetState h = kConnected)"
proof
  assume "IsReplicaReady cs"
  then obtain x where x: "x \<in> set (replicas cs)"
    "case x of None \<Rightarrow> False | Some h \<Rightarrow> holder_GetState h = kConnected"
    unfolding IsReplicaReady_def list_ex_iff by blast
  show "\<exists>h. Some h \<in> set (replicas cs) \<and> holder_GetState h = kConnected"
  proof (cases x)
    case None
    with x show ?thesis by simp
  next
    case (Some h)
    with x show ?thesis by auto
  qed
next
  assume "\<exists>h. Some h \<in> set (replicas cs) \<and> holder_GetState h = kConnected"
  then obtain h where "Some h \<in> set (replicas cs)" "holder_GetState h = kConnected" by blast
  then show "IsReplicaReady cs"
    unfolding IsReplicaReady_def list_ex_iff by (intro bexI [of _ "Some h"]) simp_all
qed

lemma is_ready_Cluster_GetStatistics:
  "is_ready (Cluster_GetStatistics cs master_side) = (IsMasterReady cs \<and> IsReplicaReady cs)"
  by (simp add: Cluster_GetStatistics_def IsReady_def Let_def)

text \<open>
  C10. \<^verbatim>\<open>ClusterShard::GetStatistics\<close> sets \<open>is_ready\<close> to the readiness of the mode
  \<^verbatim>\<open>kMasterAndSlave\<close>, the master not null and connected and some replica not null and
  connected, for the statistics of the master side and for those of the replica side
  alike. So a shard with a connected master and no connected replica reports
  \<open>is_ready = false\<close> on its master side too.
\<close>

theorem cluster_statistics_is_ready:
  "is_ready (Cluster_GetStatistics cs master_side) = IsReady cs kMasterAndSlave
   \<and> is_ready (Cluster_GetStatistics cs master_side) =
       ((\<exists>h. master cs = Some h \<and> holder_GetState h = kConnected) \<and>
        (\<exists>h. Some h \<in> set (replicas cs) \<and> holder_GetState h = kConnected))
   \<and> ((\<exists>h. master cs = Some h \<and> holder_GetState h = kConnected) \<and>
       \<not> (\<exists>h. Some h \<in> set (replicas cs) \<and> holder_GetState h = kConnected) \<longrightarrow>
       \<not> is_ready (Cluster_GetStatistics cs True))"
  unfolding is_ready_Cluster_GetStatistics IsMasterReady_iff [symmetric]
    IsReplicaReady_iff [symmetric]
  by (simp add: IsReady_def)

theorem cluster_statistics_is_ready_witness:
  "master (cluster_of redis_m [redis_r1\<lparr>GetState := kDisconnected\<rparr>]) = holder_of redis_m
   \<and> holder_of redis_m = Some \<lparr>Get = Some redis_m, holder_GetState = kConnected\<rparr>
   \<and> replicas (cluster_of redis_m [redis_r1\<lparr>GetState := kDisconnected\<rparr>]) =
       [Some \<lparr>Get = Some (redis_r1\<lparr>GetState := kDisconnected\<rparr>),
              holder_GetState = kDisconnected\<rparr>]
   \<and> \<not> is_ready (Cluster_GetStatistics
         (cluster_of redis_m [redis_r1\<lparr>GetState := kDisconnected\<rparr>]) True)"
  using cluster_statistics_is_ready [of "cluster_of redis_m [redis_r1\<lparr>GetState := kDisconnected\<rparr>]" True]
  by (simp add: example_defs IsReady_def IsMasterReady_def IsReplicaReady_def)

subsection \<open>The closed door and the reconciliation on concrete shards\<close>


theorem closed_door_witness:
  "instances (foldl run_operation (Clean (shard_of [entry_a kConnected] []))
      [OpProcessCreation connecting, InstancesChange connect_all, OpProcessStateUpdate 3]) =
     [\<lparr>info = info_of redis_m False, inst = connect_all (connecting False (info_of redis_m False))\<rparr>]
   \<and> \<not> accepted (AsyncCommand accept_all
        (foldl run_operation (Clean (shard_of [entry_a kConnected] []))
          [OpProcessCreation connecting, InstancesChange connect_all, OpProcessStateUpdate 3])
        (command_of False AnyServer (- 1)))"
proof -
  have "instances (foldl run_operation (Clean (shard_of [entry_a kConnected] []))
      [OpProcessCreation connecting, InstancesChange connect_all, OpProcessStateUpdate 3]) =
     [\<lparr>info = info_of redis_m False, inst = connect_all (connecting False (info_of redis_m False))\<rparr>]"
    by (simp add: Clean_def ProcessCreation_closed GetConnectionInfosToCreate_eq
        ProcessStateUpdate_closed shard_of_def entry_a_def entry_of_def connected_def
        connect_all_def info_of_def)
  with closed_door [of "shard_of [entry_a kConnected] []"
      "[OpProcessCreation connecting, InstancesChange connect_all, OpProcessStateUpdate 3]"
      accept_all "command_of False AnyServer (- 1)"]
  show ?thesis by simp
qed

theorem reconcile_idempotent_witness:
  "snd (ProcessCreation connecting ((shard_of [] [])\<lparr>connection_infos := [info_b]\<rparr>)) =
     (shard_of [] [])\<lparr>connection_infos := [info_b],
        clean_wait := [\<lparr>info = info_b, inst = connecting False info_b\<rparr>]\<rparr>
   \<and> ProcessCreation connecting
       ((shard_of [] [])\<lparr>connection_infos := [info_b],
          clean_wait := [\<lparr>info = info_b, inst = connecting False info_b\<rparr>]\<rparr>) =
     (False, (shard_of [] [])\<lparr>connection_infos := [info_b],
        clean_wait := [\<lparr>info = info_b, inst = connecting False info_b\<rparr>]\<rparr>)"
proof -
  have first: "snd (ProcessCreation connecting ((shard_of [] [])\<lparr>connection_infos := [info_b]\<rparr>)) =
     (shard_of [] [])\<lparr>connection_infos := [info_b],
        clean_wait := [\<lparr>info = info_b, inst = connecting False info_b\<rparr>]\<rparr>"
    by (simp add: ProcessCreation_closed GetConnectionInfosToCreate_eq shard_of_def)
  from reconcile_idempotent [of connecting connecting
      "(shard_of [] [])\<lparr>connection_infos := [info_b]\<rparr>" 3 7]
  show ?thesis unfolding first by simp
qed

theorem signals_under_lock_callback_after_witness:
  "snd (snd (ProcessStateUpdate 7
      (shard_of [entry_of redis_r1 True] [entry_a kInit, entry_of redis_r2 True]))) =
     [LockExclusive, SignalInstanceReady (Server 3) True, Unlock]"
  using signals_under_lock_callback_after [of 7
      "shard_of [entry_of redis_r1 True] [entry_a kInit, entry_of redis_r2 True]"]
  by (simp add: example_defs reconcile_defs connected_def signal_ready_def
      ready_change_events_def)

end
